theory Spec2Isabelle
  imports Complex_Main
begin

section \<open>JavaScript values\<close>

text \<open>
  \<open>transformBuilding\<close> takes \<open>data: any\<close>, so its argument is modelled as an untyped
  JavaScript value. A finite number is identified with the rational it denotes (no
  rounding, no overflow); \<open>NaN\<close> and the two infinities are values of their own.
  An object is the list of its properties.
\<close>

datatype jsnum = NaN | PosInf | NegInf | Fin rat

datatype jsval =
    JUndefined
  | JNull
  | JBool bool
  | JNum jsnum
  | JStr string
  | JArr "jsval list"
  | JObj "(string \<times> jsval) list"

datatype jserror = TypeError | SupabaseApiError nat string

definition ebind :: "'e + 'a \<Rightarrow> ('a \<Rightarrow> 'e + 'b) \<Rightarrow> 'e + 'b" where
  "ebind m f = (case m of Inl e \<Rightarrow> Inl e | Inr x \<Rightarrow> f x)"

fun emap :: "('a \<Rightarrow> 'e + 'b) \<Rightarrow> 'a list \<Rightarrow> 'e + 'b list" where
  "emap f [] = Inr []"
| "emap f (x # xs) =
     (case f x of
        Inl e \<Rightarrow> Inl e
      | Inr y \<Rightarrow> (case emap f xs of Inl e \<Rightarrow> Inl e | Inr ys \<Rightarrow> Inr (y # ys)))"

text \<open>\<open>x == null\<close>: the receivers on which a property read throws, and on which \<open>?.\<close> stops.\<close>

fun nullish :: "jsval \<Rightarrow> bool" where
  "nullish JUndefined = True"
| "nullish JNull = True"
| "nullish _ = False"

text \<open>ToBoolean.\<close>

fun truthy :: "jsval \<Rightarrow> bool" where
  "truthy JUndefined = False"
| "truthy JNull = False"
| "truthy (JBool b) = b"
| "truthy (JNum NaN) = False"
| "truthy (JNum (Fin q)) = (q \<noteq> 0)"
| "truthy (JNum _) = True"
| "truthy (JStr s) = (s \<noteq> [])"
| "truthy (JArr _) = True"
| "truthy (JObj _) = True"

text \<open>\<open>a || b\<close>.\<close>

definition js_or :: "jsval \<Rightarrow> jsval \<Rightarrow> jsval" where
  "js_or a b = (if truthy a then a else b)"

text \<open>
  \<open>v.k\<close> for a receiver that is not nullish. The names this program reads are none of
  the built-in properties of strings, arrays, numbers or booleans, so only an object
  can answer with something else than \<open>undefined\<close>.
\<close>

fun field :: "jsval \<Rightarrow> string \<Rightarrow> jsval" where
  "field (JObj kvs) k = (case map_of kvs k of None \<Rightarrow> JUndefined | Some v \<Rightarrow> v)"
| "field _ k = JUndefined"

section \<open>Strings\<close>

text \<open>
  A string is a list of characters. White space and letter case are the ASCII ones;
  the Unicode white space and case mappings of the runtime are outside the model.
\<close>

definition is_space :: "char \<Rightarrow> bool" where
  "is_space c = (c \<in> set [CHR '' '', CHR 0x09, CHR 0x0A, CHR 0x0B, CHR 0x0C, CHR 0x0D])"

definition is_digit :: "char \<Rightarrow> bool" where
  "is_digit c = (c \<in> set ''0123456789'')"

definition digit_val :: "char \<Rightarrow> nat" where
  "digit_val c = of_char c - 48"

definition to_lower_char :: "char \<Rightarrow> char" where
  "to_lower_char c =
     (if (65::nat) \<le> of_char c \<and> of_char c \<le> (90::nat) then char_of (of_char c + (32::nat)) else c)"

definition toLowerCase :: "string \<Rightarrow> string" where
  "toLowerCase s = map to_lower_char s"

definition js_trim :: "string \<Rightarrow> string" where
  "js_trim s = rev (dropWhile is_space (rev (dropWhile is_space s)))"

text \<open>\<open>s.includes(q)\<close>: \<open>q\<close> occurs in \<open>s\<close> as a contiguous run.\<close>

fun str_includes :: "string \<Rightarrow> string \<Rightarrow> bool" where
  "str_includes [] q = (q = [])"
| "str_includes (c # cs) q = (take (length q) (c # cs) = q \<or> str_includes cs q)"

text \<open>\<open>s.split(sep)\<close> for a one-character separator: never the empty list.\<close>

fun split_on :: "char \<Rightarrow> string \<Rightarrow> string list" where
  "split_on sep [] = [[]]"
| "split_on sep (c # cs) =
     (if c = sep then [] # split_on sep cs
      else (case split_on sep cs of
              [] \<Rightarrow> [[c]]
            | w # ws \<Rightarrow> (c # w) # ws))"

text \<open>The value of a run of decimal digits, most significant first.\<close>

definition digits_val :: "string \<Rightarrow> nat" where
  "digits_val s = foldl (\<lambda>acc c. 10 * acc + digit_val c) 0 s"

section \<open>parseInt and parseFloat\<close>

text \<open>
  \<open>parseInt(s, 10)\<close> on a string: leading white space, an optional sign, then the longest
  run of digits; \<open>None\<close> stands for \<open>NaN\<close> (no digit).
\<close>

definition parseInt_digits :: "string \<Rightarrow> nat option" where
  "parseInt_digits s =
     (let ds = takeWhile is_digit s in if ds = [] then None else Some (digits_val ds))"

definition parseInt_str :: "string \<Rightarrow> int option" where
  "parseInt_str s =
     (case dropWhile is_space s of
        [] \<Rightarrow> None
      | c # cs \<Rightarrow>
          if c = CHR ''-'' then map_option (\<lambda>n. - int n) (parseInt_digits cs)
          else if c = CHR ''+'' then map_option int (parseInt_digits cs)
          else map_option int (parseInt_digits (c # cs)))"

text \<open>
  \<open>parseInt\<close> of a number reads the number's own printed form. Numbers of magnitude in
  \<open>[1e-6, 1e21)\<close>, and zero, print in positional notation, and the digits before the
  point are read: truncation towards zero. The others print in exponent notation
  \<open>d.ddde\<plusminus>x\<close>, and only the leading digit \<open>d\<close> is read.
\<close>

fun lead_digit :: "nat \<Rightarrow> nat" where
  "lead_digit n = (if n < 10 then n else lead_digit (n div 10))"

declare lead_digit.simps [simp del]

primrec first_sig :: "nat \<Rightarrow> rat \<Rightarrow> nat" where
  "first_sig 0 q = nat \<lfloor>q\<rfloor>"
| "first_sig (Suc k) q = (if 1 \<le> q then nat \<lfloor>q\<rfloor> else first_sig k (q * 10))"

definition trunc :: "rat \<Rightarrow> int" where
  "trunc q = (if 0 \<le> q then \<lfloor>q\<rfloor> else - \<lfloor>- q\<rfloor>)"

definition parseInt_fin :: "rat \<Rightarrow> int" where
  "parseInt_fin q =
     (if q = 0 then 0
      else if 1000000000000000000000 \<le> \<bar>q\<bar> then sgn (trunc q) * int (lead_digit (nat \<lfloor>\<bar>q\<bar>\<rfloor>))
      else if \<bar>q\<bar> < 1 / 1000000
        then (if 0 < q then 1 else - 1) * int (first_sig (nat (snd (quotient_of \<bar>q\<bar>))) \<bar>q\<bar>)
      else trunc q)"

text \<open>
  On any other value \<open>parseInt\<close> reads ToString of it: \<open>undefined\<close>, \<open>null\<close>, \<open>true\<close>,
  \<open>false\<close> and \<open>[object Object]\<close> have no digit; an array prints its elements separated
  by commas (nullish elements as the empty string), so only its first element is read.
\<close>

fun parseInt :: "jsval \<Rightarrow> int option" where
  "parseInt (JStr s) = parseInt_str s"
| "parseInt (JNum (Fin q)) = Some (parseInt_fin q)"
| "parseInt (JNum _) = None"
| "parseInt (JArr (x # xs)) = parseInt x"
| "parseInt _ = None"

text \<open>
  \<open>parseFloat\<close> on a string: leading white space, an optional sign, then \<open>Infinity\<close> or
  the longest prefix of the form digits, optional point and digits, optional exponent.
\<close>

definition parse_exponent :: "string \<Rightarrow> int" where
  "parse_exponent s =
     (case s of
        [] \<Rightarrow> 0
      | c # cs \<Rightarrow>
          if c = CHR ''e'' \<or> c = CHR ''E'' then
            (case cs of
               [] \<Rightarrow> 0
             | d # ds \<Rightarrow>
                 if d = CHR ''-'' then (case parseInt_digits ds of None \<Rightarrow> 0 | Some n \<Rightarrow> - int n)
                 else if d = CHR ''+'' then (case parseInt_digits ds of None \<Rightarrow> 0 | Some n \<Rightarrow> int n)
                 else (case parseInt_digits (d # ds) of None \<Rightarrow> 0 | Some n \<Rightarrow> int n))
          else 0)"

definition pow10 :: "int \<Rightarrow> rat" where
  "pow10 e = (if 0 \<le> e then 10 ^ nat e else 1 / 10 ^ nat (- e))"

definition parse_decimal :: "string \<Rightarrow> rat option" where
  "parse_decimal s =
     (let ip = takeWhile is_digit s;
          r1 = dropWhile is_digit s
      in (case r1 of
            c # cs \<Rightarrow>
              if c = CHR ''.'' then
                (let fp = takeWhile is_digit cs;
                     r2 = dropWhile is_digit cs
                 in if ip = [] \<and> fp = [] then None
                    else Some ((of_nat (digits_val ip) + of_nat (digits_val fp) / 10 ^ length fp)
                               * pow10 (parse_exponent r2)))
              else if ip = [] then None
              else Some (of_nat (digits_val ip) * pow10 (parse_exponent r1))
          | [] \<Rightarrow> if ip = [] then None else Some (of_nat (digits_val ip))))"

definition parse_unsigned :: "string \<Rightarrow> jsnum" where
  "parse_unsigned s =
     (if take 8 s = ''Infinity'' then PosInf
      else (case parse_decimal s of None \<Rightarrow> NaN | Some q \<Rightarrow> Fin q))"

fun neg_num :: "jsnum \<Rightarrow> jsnum" where
  "neg_num NaN = NaN"
| "neg_num PosInf = NegInf"
| "neg_num NegInf = PosInf"
| "neg_num (Fin q) = Fin (- q)"

definition parseFloat_str :: "string \<Rightarrow> jsnum" where
  "parseFloat_str s =
     (case dropWhile is_space s of
        [] \<Rightarrow> NaN
      | c # cs \<Rightarrow>
          if c = CHR ''-'' then neg_num (parse_unsigned cs)
          else if c = CHR ''+'' then parse_unsigned cs
          else parse_unsigned (c # cs))"

text \<open>
  \<open>parseFloat\<close> of a number reads the number's printed form, which denotes that same
  number; of the other values it reads ToString, as \<open>parseInt\<close> does.
\<close>

fun parseFloat :: "jsval \<Rightarrow> jsnum" where
  "parseFloat (JStr s) = parseFloat_str s"
| "parseFloat (JNum n) = n"
| "parseFloat (JArr (x # xs)) = parseFloat x"
| "parseFloat _ = NaN"

section \<open>The row normalizer\<close>

text \<open>
  The three reads of the clock that one call of \<open>transformBuilding\<close> can make:
  \<open>new Date().getFullYear()\<close> and the two \<open>new Date().toISOString()\<close>.
\<close>

record clock =
  full_year :: int
  iso_created :: string
  iso_updated :: string

text \<open>
  \<open>parseCommaSeparated\<close>: a falsy argument gives the empty array; a string is split at
  commas, each piece trimmed, the empty pieces dropped; any other value has no \<open>split\<close>
  method and the call throws.
\<close>

definition parseCommaSeparated :: "jsval \<Rightarrow> jserror + jsval" where
  "parseCommaSeparated str =
     (if \<not> truthy str then Inr (JArr [])
      else (case str of
              JStr s \<Rightarrow> Inr (JArr (map JStr (filter (\<lambda>t. 0 < length t) (map js_trim (split_on CHR '','' s)))))
            | _ \<Rightarrow> Inl TypeError))"

definition parseYear :: "clock \<Rightarrow> jsval \<Rightarrow> int" where
  "parseYear clk year =
     (if \<not> truthy year then full_year clk
      else (case parseInt year of None \<Rightarrow> full_year clk | Some parsed \<Rightarrow> parsed))"

text \<open>The callback of \<open>data.building_architects?.map\<close>.\<close>

definition architect_of :: "jsval \<Rightarrow> jserror + jsval" where
  "architect_of ba =
     (if nullish ba then Inl TypeError
      else (let t = field ba ''architects_table'' in
            if nullish t then Inl TypeError
            else Inr (JObj
              [(''architect_id'', field t ''architect_id''),
               (''architectJa'', field t ''architectJa''),
               (''architectEn'', js_or (field t ''architectEn'') (field t ''architectJa'')),
               (''websites'', JArr [])])))"

text \<open>
  \<open>data.building_architects?.map(...) || []\<close>: a nullish relation gives the empty array,
  an array is mapped, and any other value has no \<open>map\<close> method.
\<close>

definition architects_of :: "jsval \<Rightarrow> jserror + jsval" where
  "architects_of rel =
     (if nullish rel then Inr (JArr [])
      else (case rel of
              JArr bas \<Rightarrow> ebind (emap architect_of bas) (\<lambda>as. Inr (JArr as))
            | _ \<Rightarrow> Inl TypeError))"

definition transformBuilding :: "clock \<Rightarrow> jsval \<Rightarrow> jserror + jsval" where
  "transformBuilding clk data =
     (if nullish data then Inl TypeError
      else
        ebind (parseCommaSeparated (field data ''parentBuildingTypes'')) (\<lambda>pbt.
        ebind (parseCommaSeparated (field data ''buildingTypes'')) (\<lambda>bt.
        ebind (parseCommaSeparated (field data ''parentStructures'')) (\<lambda>ps.
        ebind (parseCommaSeparated (field data ''structures'')) (\<lambda>st.
        ebind (architects_of (field data ''building_architects'')) (\<lambda>archs.
        Inr (JObj
          [(''id'', field data ''building_id''),
           (''uid'', field data ''uid''),
           (''title'', field data ''title''),
           (''titleEn'', js_or (field data ''titleEn'') (field data ''title'')),
           (''thumbnailUrl'', js_or (field data ''thumbnailUrl'') (JStr [])),
           (''youtubeUrl'', js_or (field data ''youtubeUrl'') (JStr [])),
           (''completionYears'', JNum (Fin (of_int (parseYear clk (field data ''completionYears''))))),
           (''parentBuildingTypes'', pbt),
           (''buildingTypes'', bt),
           (''parentStructures'', ps),
           (''structures'', st),
           (''prefectures'', field data ''prefectures''),
           (''areas'', field data ''areas''),
           (''location'', field data ''location''),
           (''architectDetails'', js_or (field data ''architectDetails'') (JStr [])),
           (''lat'', js_or (JNum (parseFloat (field data ''lat''))) (JNum (Fin 0))),
           (''lng'', js_or (JNum (parseFloat (field data ''lng''))) (JNum (Fin 0))),
           (''architects'', archs),
           (''photos'', JArr []),
           (''likes'', JNum (Fin 0)),
           (''created_at'', js_or (field data ''created_at'') (JStr (iso_created clk))),
           (''updated_at'', js_or (field data ''updated_at'') (JStr (iso_updated clk)))])))))))"

section \<open>Search filters and the remote backend\<close>

text \<open>
  \<open>SearchFilters\<close> is declared in the types module; its fields are the ones the callers
  write (\<open>App.tsx\<close>, \<open>getNearbyBuildings\<close>). The numbers of a filter are finite.
\<close>

record SearchFilters =
  query :: string
  radius :: rat
  architects :: "string list"
  buildingTypes :: "string list"
  prefectures :: "string list"
  areas :: "string list"
  hasPhotos :: bool
  hasVideos :: bool
  currentLocation :: "(rat \<times> rat) option"

text \<open>
  What the query builder is asked for: whether \<open>select\<close> embeds
  \<open>building_architects!inner(...)\<close>, the filter calls in the order they are made, whether
  \<open>select\<close> was given \<open>{ count: 'exact' }\<close>, and the \<open>range\<close> and \<open>limit\<close> calls.
  \<open>OrFilter s\<close> is the call \<open>or(s)\<close>, with the filter string as the program built it.
\<close>

datatype clause =
    OrFilter string
  | IsIn string "string list"
  | NotIsNull string
  | Gte string rat
  | Lte string rat

record request =
  inner_architects :: bool
  clauses :: "clause list"
  count_exact :: bool
  row_range :: "(int \<times> int) option"
  row_limit :: "nat option"

text \<open>
  Modelled from the spec: the hosted database behind the client SDK is not part of this
  repository. A backend holds the rows of \<open>buildings_table_2\<close> with their joined
  relations, in the order \<open>order('completionYears', ascending)\<close> returns them; it either
  rejects every table query with a message or answers it; and it answers the remote
  procedure \<open>nearby_buildings\<close> with an error message or with data (which may be null).
\<close>

record backend =
  table_rows :: "jsval list"
  table_error :: "string option"
  rpc_nearby :: "rat \<Rightarrow> rat \<Rightarrow> rat \<Rightarrow> string + jsval list option"

text \<open>
  Modelled from the spec: the backend's reading of a filter string is not part of this
  repository. An \<open>ilike\<close> pattern matches a whole value without regard to case; in it
  \<open>%\<close> and its alias \<open>*\<close> stand for any run of characters, \<open>_\<close> for any one character,
  and a backslash takes the next character literally. A pattern must not end in a lone
  backslash.
\<close>

fun like_match :: "string \<Rightarrow> string \<Rightarrow> bool" where
  "like_match [] s = (s = [])"
| "like_match (p # ps) [] = ((p = CHR ''%'' \<or> p = CHR ''*'') \<and> like_match ps [])"
| "like_match (p # ps) (c # cs) =
     (if p = CHR ''%'' \<or> p = CHR ''*'' then like_match ps (c # cs) \<or> like_match (p # ps) cs
      else if p = CHR 0x5C then (case ps of [] \<Rightarrow> False | e # qs \<Rightarrow> c = e \<and> like_match qs cs)
      else (p = CHR ''_'' \<or> p = c) \<and> like_match ps cs)"

fun pattern_ok :: "string \<Rightarrow> bool" where
  "pattern_ok [] = True"
| "pattern_ok [c] = (c \<noteq> CHR 0x5C)"
| "pattern_ok (c # d # cs) = (if c = CHR 0x5C then pattern_ok cs else pattern_ok (d # cs))"

definition ilike :: "string \<Rightarrow> string \<Rightarrow> bool" where
  "ilike pat s = like_match (toLowerCase pat) (toLowerCase s)"

text \<open>
  Modelled from the spec: an \<open>or\<close> filter string is a list of conditions separated by
  commas, each of the form \<open>column.operator.value\<close>, the value running to the next comma.
  Of the operators only \<open>ilike\<close>, the one this program writes, is read; a piece of any
  other form, or with a parenthesis in it, makes the string unreadable.
\<close>

definition parse_cond :: "string \<Rightarrow> (string \<times> string) option" where
  "parse_cond piece =
     (let col = takeWhile (\<lambda>c. c \<noteq> CHR ''.'') piece;
          r1 = drop (Suc (length col)) piece;
          opr = takeWhile (\<lambda>c. c \<noteq> CHR ''.'') r1;
          pat = drop (Suc (length opr)) r1
      in if col \<noteq> [] \<and> length col < length piece \<and> opr = ''ilike'' \<and> length opr < length r1 \<and>
            CHR ''('' \<notin> set piece \<and> CHR '')'' \<notin> set piece \<and> pattern_ok pat
         then Some (col, pat) else None)"

definition or_conditions :: "string \<Rightarrow> (string \<times> string) list option" where
  "or_conditions s = those (map parse_cond (split_on CHR '','' s))"

text \<open>
  Modelled from the spec: the meaning of a clause on a stored row. An \<open>or\<close> filter holds
  when one of its conditions does, a condition \<open>column.ilike.pattern\<close> when the column is
  a string the pattern matches; \<open>in\<close> is membership, \<open>not is null\<close> holds of every value
  but null, and a comparison holds of a number in the band. A null column satisfies no
  other clause. A request with an unreadable filter string is rejected.
\<close>

definition cond_holds :: "jsval \<Rightarrow> string \<times> string \<Rightarrow> bool" where
  "cond_holds r cp = (case field r (fst cp) of JStr v \<Rightarrow> ilike (snd cp) v | _ \<Rightarrow> False)"

fun clause_ok :: "clause \<Rightarrow> bool" where
  "clause_ok (OrFilter s) = (or_conditions s \<noteq> None)"
| "clause_ok _ = True"

fun clause_holds :: "clause \<Rightarrow> jsval \<Rightarrow> bool" where
  "clause_holds (OrFilter s) r =
     (case or_conditions s of None \<Rightarrow> False | Some conds \<Rightarrow> list_ex (cond_holds r) conds)"
| "clause_holds (IsIn col vs) r = (case field r col of JStr s \<Rightarrow> s \<in> set vs | _ \<Rightarrow> False)"
| "clause_holds (NotIsNull col) r = (\<not> nullish (field r col))"
| "clause_holds (Gte col x) r = (case field r col of JNum (Fin y) \<Rightarrow> x \<le> y | _ \<Rightarrow> False)"
| "clause_holds (Lte col x) r = (case field r col of JNum (Fin y) \<Rightarrow> y \<le> x | _ \<Rightarrow> False)"

text \<open>An inner join keeps the rows that have at least one joined architect.\<close>

definition has_architects :: "jsval \<Rightarrow> bool" where
  "has_architects r = (case field r ''building_architects'' of JArr (ba # bas) \<Rightarrow> True | _ \<Rightarrow> False)"

text \<open>
  Modelled from the spec: answering a request. A request whose filter string cannot be
  read is rejected. An inner join drops the rows without a joined architect. The matching
  rows are cut to the inclusive range and to the limit; the
  count of all matching rows comes back only when it was asked for (section 6: \<open>search\<close>
  additionally requests an exact row count), and is null otherwise. A range that starts
  below zero or ends before it starts is rejected.
\<close>

definition run_request :: "backend \<Rightarrow> request \<Rightarrow> string + (jsval list option \<times> nat option)" where
  "run_request bk rq =
     (case table_error bk of
        Some msg \<Rightarrow> Inl msg
      | None \<Rightarrow>
          if \<not> list_all clause_ok (clauses rq) then Inl ''failed to parse logic tree''
          else
          (let joined = (if inner_architects rq then filter has_architects (table_rows bk)
                         else table_rows bk);
               matching = filter (\<lambda>r. list_all (\<lambda>c. clause_holds c r) (clauses rq)) joined;
               counted = (if count_exact rq then Some (length matching) else None);
               limited = (case row_limit rq of None \<Rightarrow> matching | Some n \<Rightarrow> take n matching)
           in (case row_range rq of
                 None \<Rightarrow> Inr (Some limited, counted)
               | Some (a, b) \<Rightarrow>
                   if a < 0 \<or> b < a then Inl ''Requested range not satisfiable''
                   else Inr (Some (take (nat (b - a + 1)) (drop (nat a) limited)), counted))))"

section \<open>The remote data gateway\<close>

record page_result =
  buildings :: "jsval list"
  total :: nat

text \<open>\<open>rows?.map(this.transformBuilding) || []\<close>.\<close>

definition transform_all :: "clock \<Rightarrow> jsval list option \<Rightarrow> jserror + jsval list" where
  "transform_all clk data =
     (case data of None \<Rightarrow> Inr [] | Some rows \<Rightarrow> emap (transformBuilding clk) rows)"

text \<open>\<open>count || 0\<close>.\<close>

definition count_or_zero :: "nat option \<Rightarrow> nat" where
  "count_or_zero c = (case c of None \<Rightarrow> 0 | Some n \<Rightarrow> n)"

definition getBuildings :: "backend \<Rightarrow> clock \<Rightarrow> int \<Rightarrow> int \<Rightarrow> jserror + page_result" where
  "getBuildings bk clk page limit =
     (let start = (page - 1) * limit;
          end = start + limit - 1
      in (case run_request bk
                 \<lparr>inner_architects = True, clauses = [], count_exact = False,
                  row_range = Some (start, end), row_limit = None\<rparr> of
            Inl msg \<Rightarrow> Inl (SupabaseApiError 500 msg)
          | Inr (rows, cnt) \<Rightarrow>
              ebind (transform_all clk rows) (\<lambda>bs.
              Inr \<lparr>buildings = bs, total = count_or_zero cnt\<rparr>)))"

text \<open>
  The template literal
  \<open>title.ilike.%${filters.query}%,titleEn.ilike.%${filters.query}%,location.ilike.%${filters.query}%\<close>:
  the query goes into the filter string as it is.
\<close>

definition search_or_filter :: "string \<Rightarrow> string" where
  "search_or_filter q =
     ''title.ilike.%'' @ q @ ''%,titleEn.ilike.%'' @ q @ ''%,location.ilike.%'' @ q @ ''%''"

text \<open>The clauses \<open>searchBuildings\<close> adds to its query, in the order of the source.\<close>

definition search_clauses :: "SearchFilters \<Rightarrow> clause list" where
  "search_clauses f =
     (if js_trim (query f) \<noteq> [] then [OrFilter (search_or_filter (query f))] else [])
     @ (if 0 < length (prefectures f) then [IsIn ''prefectures'' (prefectures f)] else [])
     @ (if hasPhotos f then [NotIsNull ''thumbnailUrl''] else [])
     @ (if hasVideos f then [NotIsNull ''youtubeUrl''] else [])
     @ (case currentLocation f of
          None \<Rightarrow> []
        | Some (lat, lng) \<Rightarrow>
            [Gte ''lat'' (lat - radius f * (9 / 1000)),
             Lte ''lat'' (lat + radius f * (9 / 1000)),
             Gte ''lng'' (lng - radius f * (11 / 1000)),
             Lte ''lng'' (lng + radius f * (11 / 1000))])"

definition searchBuildings :: "backend \<Rightarrow> clock \<Rightarrow> SearchFilters \<Rightarrow> jserror + page_result" where
  "searchBuildings bk clk f =
     (case run_request bk
             \<lparr>inner_architects = True, clauses = search_clauses f, count_exact = True,
              row_range = None, row_limit = None\<rparr> of
        Inl msg \<Rightarrow> Inl (SupabaseApiError 500 msg)
      | Inr (rows, cnt) \<Rightarrow>
          ebind (transform_all clk rows) (\<lambda>bs.
          Inr \<lparr>buildings = bs, total = count_or_zero cnt\<rparr>))"

definition nearby_filters :: "rat \<Rightarrow> rat \<Rightarrow> rat \<Rightarrow> SearchFilters" where
  "nearby_filters lat lng r =
     \<lparr>query = [], radius = r, architects = [], buildingTypes = [], prefectures = [], areas = [],
      hasPhotos = False, hasVideos = False, currentLocation = Some (lat, lng)\<rparr>"

definition getNearbyBuildings :: "backend \<Rightarrow> clock \<Rightarrow> rat \<Rightarrow> rat \<Rightarrow> rat \<Rightarrow> jserror + jsval list" where
  "getNearbyBuildings bk clk lat lng r =
     (case rpc_nearby bk lat lng r of
        Inl msg \<Rightarrow>
          (case searchBuildings bk clk (nearby_filters lat lng r) of
             Inl e \<Rightarrow> Inl e
           | Inr res \<Rightarrow> Inr (buildings res))
      | Inr rows \<Rightarrow> transform_all clk rows)"

text \<open>
  \<open>getSearchSuggestions\<close>: a \<open>Set\<close> keeps its elements in insertion order, once each.
  \<open>item.title.toLowerCase()\<close> throws unless the title is a string;
  \<open>item.titleEn?.toLowerCase()\<close> is skipped for a nullish \<open>titleEn\<close>.
\<close>

definition set_add :: "string list \<Rightarrow> string \<Rightarrow> string list" where
  "set_add acc s = (if s \<in> set acc then acc else acc @ [s])"

fun collect_suggestions :: "string \<Rightarrow> jsval list \<Rightarrow> string list \<Rightarrow> jserror + string list" where
  "collect_suggestions q [] acc = Inr acc"
| "collect_suggestions q (item # items) acc =
     (if nullish item then Inl TypeError
      else (case field item ''title'' of
              JStr t \<Rightarrow>
                (let acc1 = (if str_includes (toLowerCase t) (toLowerCase q) then set_add acc t else acc)
                 in (case field item ''titleEn'' of
                       JStr te \<Rightarrow>
                         collect_suggestions q items
                           (if str_includes (toLowerCase te) (toLowerCase q) then set_add acc1 te else acc1)
                     | JUndefined \<Rightarrow> collect_suggestions q items acc1
                     | JNull \<Rightarrow> collect_suggestions q items acc1
                     | _ \<Rightarrow> Inl TypeError))
            | _ \<Rightarrow> Inl TypeError))"

text \<open>The template literal \<open>title.ilike.%${query}%,titleEn.ilike.%${query}%\<close>.\<close>

definition suggest_or_filter :: "string \<Rightarrow> string" where
  "suggest_or_filter q = ''title.ilike.%'' @ q @ ''%,titleEn.ilike.%'' @ q @ ''%''"

definition getSearchSuggestions :: "backend \<Rightarrow> string \<Rightarrow> jserror + string list" where
  "getSearchSuggestions bk q =
     (case run_request bk
             \<lparr>inner_architects = False, clauses = [OrFilter (suggest_or_filter q)],
              count_exact = False, row_range = None, row_limit = Some 10\<rparr> of
        Inl msg \<Rightarrow> Inr []
      | Inr (rows, cnt) \<Rightarrow>
          (case rows of None \<Rightarrow> Inr [] | Some items \<Rightarrow> collect_suggestions q items []))"

record health =
  status :: string
  database :: string

definition healthCheck :: "backend \<Rightarrow> jserror + health" where
  "healthCheck bk =
     (case run_request bk
             \<lparr>inner_architects = False, clauses = [], count_exact = False, row_range = None,
              row_limit = Some 1\<rparr> of
        Inl msg \<Rightarrow> Inl (SupabaseApiError 500 ''Database connection failed'')
      | Inr res \<Rightarrow> Inr \<lparr>status = ''ok'', database = ''supabase''\<rparr>)"

section \<open>The local predicate\<close>

text \<open>
  Modelled from the spec: the client-side \<open>searchBuildings\<close> of the search utilities, which
  the mock path of \<open>useSupabaseBuildings\<close> calls, is not among the sources. Section 4.2:
  the free-text query is trimmed; it is no constraint when it is then empty, and otherwise
  title, titleEn or location must contain the trimmed query as a case-insensitive
  substring; a non-empty prefecture set must contain the building's prefecture; \<open>hasPhotos\<close> and
  \<open>hasVideos\<close> require a non-null, non-empty reference; \<open>currentLocation\<close> with \<open>radius\<close>
  is the band of 0.009 degrees of latitude and 0.011 degrees of longitude per kilometre.
\<close>

definition contains_ci :: "string \<Rightarrow> jsval \<Rightarrow> bool" where
  "contains_ci q v = (case v of JStr s \<Rightarrow> str_includes (toLowerCase s) (toLowerCase q) | _ \<Rightarrow> False)"

definition present_ref :: "jsval \<Rightarrow> bool" where
  "present_ref v = (case v of JStr s \<Rightarrow> s \<noteq> [] | _ \<Rightarrow> False)"

definition in_band :: "rat \<Rightarrow> rat \<Rightarrow> jsval \<Rightarrow> bool" where
  "in_band lo hi v = (case v of JNum (Fin y) \<Rightarrow> lo \<le> y \<and> y \<le> hi | _ \<Rightarrow> False)"

definition local_matches :: "SearchFilters \<Rightarrow> jsval \<Rightarrow> bool" where
  "local_matches f b =
     ((js_trim (query f) = [] \<or>
         contains_ci (js_trim (query f)) (field b ''title'') \<or>
         contains_ci (js_trim (query f)) (field b ''titleEn'') \<or>
         contains_ci (js_trim (query f)) (field b ''location''))
      \<and> (prefectures f = [] \<or> (case field b ''prefectures'' of JStr s \<Rightarrow> s \<in> set (prefectures f) | _ \<Rightarrow> False))
      \<and> (\<not> hasPhotos f \<or> present_ref (field b ''thumbnailUrl''))
      \<and> (\<not> hasVideos f \<or> present_ref (field b ''youtubeUrl''))
      \<and> (case currentLocation f of
            None \<Rightarrow> True
          | Some (lat, lng) \<Rightarrow>
              in_band (lat - radius f * (9 / 1000)) (lat + radius f * (9 / 1000)) (field b ''lat'') \<and>
              in_band (lng - radius f * (11 / 1000)) (lng + radius f * (11 / 1000)) (field b ''lng'')))"

text \<open>
  The two paths over one table: the ids the remote path returns, and the ids of the
  normalized rows that the local predicate keeps.
\<close>

definition ids_of :: "jsval list \<Rightarrow> jsval set" where
  "ids_of bs = set (map (\<lambda>b. field b ''id'') bs)"

definition local_path :: "clock \<Rightarrow> SearchFilters \<Rightarrow> jsval list \<Rightarrow> jserror + jsval list" where
  "local_path clk f rows = ebind (emap (transformBuilding clk) rows) (\<lambda>bs. Inr (filter (local_matches f) bs))"

section \<open>The availability toggle\<close>

datatype api_status = Checking | Available | Unavailable

record toggle =
  useApi :: bool
  apiStatus :: api_status

text \<open>The initial state: \<open>VITE_USE_SUPABASE === 'true'\<close>, and \<open>'checking'\<close>.\<close>

definition init_toggle :: "string option \<Rightarrow> toggle" where
  "init_toggle env = \<lparr>useApi = (env = Some ''true''), apiStatus = Checking\<rparr>"

text \<open>One run of the effect \<open>checkApiStatus\<close> against the backend of that moment.\<close>

definition checkApiStatus :: "backend \<Rightarrow> toggle \<Rightarrow> toggle" where
  "checkApiStatus bk s =
     (if \<not> useApi s then s\<lparr>apiStatus := Unavailable\<rparr>
      else (case healthCheck bk of
              Inr ok \<Rightarrow> s\<lparr>apiStatus := Available\<rparr>
            | Inl err \<Rightarrow> s\<lparr>apiStatus := Unavailable, useApi := False\<rparr>))"

text \<open>
  The effect depends on \<open>[useApi]\<close>: it runs once, and once more when that run changed
  \<open>useApi\<close>.
\<close>

definition effect_settled :: "backend \<Rightarrow> toggle \<Rightarrow> toggle" where
  "effect_settled bk s =
     (let s1 = checkApiStatus bk s
      in if useApi s1 \<noteq> useApi s then checkApiStatus bk s1 else s1)"

text \<open>The effect runs of a session in which no caller touches \<open>setUseApi\<close>.\<close>

definition rerun_effects :: "toggle \<Rightarrow> backend list \<Rightarrow> toggle" where
  "rerun_effects s bks = foldl (\<lambda>t bk. checkApiStatus bk t) s bks"

section \<open>Slugs\<close>

text \<open>
  The template literal prints \<open>building.id\<close> with Number::toString: an integer below
  \<open>10^21\<close> in magnitude prints its decimal digits, a larger one prints in exponent
  notation.
\<close>

definition digit_char :: "nat \<Rightarrow> char" where
  "digit_char d = char_of (48 + d)"

fun digits_of :: "nat \<Rightarrow> string" where
  "digits_of n = (if n < 10 then [digit_char n] else digits_of (n div 10) @ [digit_char (n mod 10)])"

declare digits_of.simps [simp del]

definition exp_notation :: "nat \<Rightarrow> string" where
  "exp_notation n =
     (let ds = digits_of n;
          sig = rev (dropWhile (\<lambda>c. c = CHR ''0'') (rev ds))
      in (case sig of
            [] \<Rightarrow> ''0''
          | d # rest \<Rightarrow> (if rest = [] then [d] else d # CHR ''.'' # rest) @ ''e+'' @ digits_of (length ds - 1)))"

definition int_to_string :: "int \<Rightarrow> string" where
  "int_to_string i =
     (if i < 0 then ''-'' else []) @
     (if \<bar>i\<bar> < 1000000000000000000000 then digits_of (nat \<bar>i\<bar>) else exp_notation (nat \<bar>i\<bar>))"

record slug_source =
  b_id :: int
  b_title :: string
  b_titleEn :: string

text \<open>\<open>replace(/p+/g, '-')\<close>: every maximal run of characters in \<open>p\<close> becomes one hyphen.\<close>

function replace_runs :: "(char \<Rightarrow> bool) \<Rightarrow> string \<Rightarrow> string" where
  "replace_runs p [] = []"
| "replace_runs p (c # cs) =
     (if p c then CHR ''-'' # replace_runs p (dropWhile p cs) else c # replace_runs p cs)"
  by pat_completeness auto
termination
  by (relation "measure (\<lambda>(p, s). length s)") (auto simp: length_dropWhile_le le_imp_less_Suc)

definition slug_char :: "char \<Rightarrow> bool" where
  "slug_char c = (c \<in> set ''abcdefghijklmnopqrstuvwxyz'' \<or> is_digit c \<or> is_space c \<or> c = CHR ''-'')"

definition generateSlug :: "slug_source \<Rightarrow> string" where
  "generateSlug building =
     (let title = (if b_titleEn building \<noteq> [] then b_titleEn building else b_title building)
      in int_to_string (b_id building) @ ''-'' @
         take 50 (js_trim
           (replace_runs (\<lambda>c. c = CHR ''-'')
             (replace_runs is_space
               (filter slug_char (toLowerCase title))))))"

definition extractIdFromSlug :: "string \<Rightarrow> int option" where
  "extractIdFromSlug slug =
     (case split_on CHR ''-'' slug of [] \<Rightarrow> None | w # ws \<Rightarrow> parseInt_str w)"

section \<open>Rows the normalizer accepts\<close>

text \<open>
  The columns of \<open>buildings_table_2\<close> that \<open>parseCommaSeparated\<close> reads are declared
  \<open>string | null\<close>, and the joined relation is an array of entries that each carry their
  \<open>architects_table\<close> record. \<open>normalizable\<close> asks no more than that of a row: each of the
  four list columns is falsy or a string, and the relation is absent or such an array.
\<close>

definition splittable :: "jsval \<Rightarrow> bool" where
  "splittable v = (\<not> truthy v \<or> (case v of JStr s \<Rightarrow> True | _ \<Rightarrow> False))"

definition joined_ok :: "jsval \<Rightarrow> bool" where
  "joined_ok rel =
     (nullish rel \<or>
      (case rel of
         JArr bas \<Rightarrow> list_all (\<lambda>ba. \<not> nullish ba \<and> \<not> nullish (field ba ''architects_table'')) bas
       | _ \<Rightarrow> False))"

definition normalizable :: "jsval \<Rightarrow> bool" where
  "normalizable r =
     (\<not> nullish r \<and>
      splittable (field r ''parentBuildingTypes'') \<and>
      splittable (field r ''buildingTypes'') \<and>
      splittable (field r ''parentStructures'') \<and>
      splittable (field r ''structures'') \<and>
      joined_ok (field r ''building_architects''))"

text \<open>Applying the normalizer to its own result.\<close>

definition renormalize :: "clock \<Rightarrow> jsval \<Rightarrow> jserror + jsval" where
  "renormalize clk r = ebind (transformBuilding clk r) (transformBuilding clk)"

text \<open>
  The queries on which the two search paths are compared: blank, or without surrounding
  white space and made of ASCII characters (the ones whose white space and letter case
  the model has) other than those that the filter string or the pattern reads as
  something else than themselves.
\<close>

definition plain_char :: "char \<Rightarrow> bool" where
  "plain_char c =
     ((of_char c :: nat) < 128 \<and>
      c \<notin> set [CHR ''%'', CHR ''*'', CHR ''_'', CHR 0x5C, CHR '','', CHR ''('', CHR '')''])"

definition wild_free :: "string \<Rightarrow> bool" where
  "wild_free s = list_all (\<lambda>c. c \<notin> set [CHR ''%'', CHR ''*'', CHR ''_'', CHR 0x5C]) s"

definition literal_query :: "string \<Rightarrow> bool" where
  "literal_query q = (js_trim q = [] \<or> (js_trim q = q \<and> list_all plain_char q))"

text \<open>
  The rows on which the two search paths are compared: the row has a joined architect, a
  media reference that a set flag reads is null or a non-empty string, and the coordinates
  that a location filter reads are finite numbers.
\<close>

definition ref_or_null :: "jsval \<Rightarrow> bool" where
  "ref_or_null v = (nullish v \<or> present_ref v)"

definition finite_num :: "jsval \<Rightarrow> bool" where
  "finite_num v = (case v of JNum (Fin y) \<Rightarrow> True | _ \<Rightarrow> False)"

definition comparable_row :: "SearchFilters \<Rightarrow> jsval \<Rightarrow> bool" where
  "comparable_row f r =
     (normalizable r \<and> has_architects r \<and>
      (hasPhotos f \<longrightarrow> ref_or_null (field r ''thumbnailUrl'')) \<and>
      (hasVideos f \<longrightarrow> ref_or_null (field r ''youtubeUrl'')) \<and>
      (currentLocation f \<noteq> None \<longrightarrow> finite_num (field r ''lat'') \<and> finite_num (field r ''lng'')))"

text \<open>The rows \<open>getSearchSuggestions\<close> selects: \<open>title\<close> a string, \<open>titleEn\<close> a string or null.\<close>

definition title_row :: "jsval \<Rightarrow> bool" where
  "title_row r =
     (\<not> nullish r \<and>
      (case field r ''title'' of JStr t \<Rightarrow> True | _ \<Rightarrow> False) \<and>
      (case field r ''titleEn'' of JStr t \<Rightarrow> True | JNull \<Rightarrow> True | JUndefined \<Rightarrow> True | _ \<Rightarrow> False))"

section \<open>Sample data\<close>

definition sample_clock :: clock where
  "sample_clock =
     \<lparr>full_year = 2025, iso_created = ''2025-06-01T09:00:00.000Z'',
      iso_updated = ''2025-06-01T09:00:00.001Z''\<rparr>"

definition museum_row :: jsval where
  "museum_row =
     JObj [(''building_id'', JNum (Fin 1)),
           (''uid'', JStr ''bld-0001''),
           (''title'', JStr ''Museum A''),
           (''titleEn'', JNull),
           (''thumbnailUrl'', JStr ''https://img.example/1.jpg''),
           (''youtubeUrl'', JNull),
           (''completionYears'', JStr ''1995''),
           (''parentBuildingTypes'', JStr ''culture''),
           (''buildingTypes'', JStr ''museum, gallery''),
           (''parentStructures'', JNull),
           (''structures'', JStr ''RC''),
           (''prefectures'', JStr ''Tokyo''),
           (''areas'', JStr ''Kanto''),
           (''location'', JStr ''Minato''),
           (''architectDetails'', JNull),
           (''lat'', JNum (Fin (3565 / 100))),
           (''lng'', JNum (Fin (13975 / 100))),
           (''created_at'', JStr ''2024-01-01T00:00:00Z''),
           (''updated_at'', JStr ''2024-01-02T00:00:00Z''),
           (''building_architects'',
              JArr [JObj [(''architects_table'',
                           JObj [(''architect_id'', JNum (Fin 7)),
                                 (''architectJa'', JStr ''Ando''),
                                 (''architectEn'', JStr [])])]]),
           (''photos'',
              JArr [JObj [(''id'', JNum (Fin 31)),
                          (''building_id'', JNum (Fin 1)),
                          (''url'', JStr ''https://img.example/p31.jpg''),
                          (''thumbnail_url'', JStr ''https://img.example/t31.jpg''),
                          (''likes'', JNum (Fin 4)),
                          (''created_at'', JStr ''2024-03-01T00:00:00Z'')]])]"

text \<open>A row whose thumbnail is the empty string, and one whose coordinates are null.\<close>

definition hall_row :: jsval where
  "hall_row =
     JObj [(''building_id'', JNum (Fin 2)),
           (''uid'', JStr ''bld-0002''),
           (''title'', JStr ''Hall B''),
           (''titleEn'', JStr ''Hall B''),
           (''thumbnailUrl'', JStr []),
           (''youtubeUrl'', JNull),
           (''completionYears'', JStr ''2001''),
           (''prefectures'', JStr ''Osaka''),
           (''areas'', JStr ''Kansai''),
           (''location'', JStr ''Kita''),
           (''lat'', JNum (Fin (347 / 10))),
           (''lng'', JNum (Fin (1355 / 10))),
           (''building_architects'',
              JArr [JObj [(''architects_table'',
                           JObj [(''architect_id'', JNum (Fin 8)),
                                 (''architectJa'', JStr ''Kuma''),
                                 (''architectEn'', JStr ''Kuma'')])]]),
           (''photos'', JArr [])]"

text \<open>A row with a joined architect and no coordinates.\<close>

definition unplaced_row :: jsval where
  "unplaced_row =
     JObj [(''building_id'', JNum (Fin 4)),
           (''uid'', JStr ''bld-0004''),
           (''title'', JStr ''Pavilion D''),
           (''lat'', JNull),
           (''lng'', JNull),
           (''building_architects'',
              JArr [JObj [(''architects_table'',
                           JObj [(''architect_id'', JNum (Fin 7)),
                                 (''architectJa'', JStr ''Ando''),
                                 (''architectEn'', JStr ''Ando'')])]])]"

text \<open>A row with only its key, identifier and title.\<close>

definition sparse_row :: jsval where
  "sparse_row =
     JObj [(''building_id'', JNum (Fin 3)),
           (''uid'', JStr ''bld-0003''),
           (''title'', JStr ''Station C'')]"

definition photo_filters :: SearchFilters where
  "photo_filters =
     \<lparr>query = [], radius = 5, architects = [], buildingTypes = [], prefectures = [], areas = [],
      hasPhotos = True, hasVideos = False, currentLocation = None\<rparr>"

definition tokyo_filters :: SearchFilters where
  "tokyo_filters =
     \<lparr>query = ''museum'', radius = 5, architects = [], buildingTypes = [], prefectures = [''Tokyo''],
      areas = [], hasPhotos = True, hasVideos = False, currentLocation = Some (3565 / 100, 13975 / 100)\<rparr>"

definition no_rpc :: "rat \<Rightarrow> rat \<Rightarrow> rat \<Rightarrow> string + jsval list option" where
  "no_rpc lat lng r = Inl ''function nearby_buildings does not exist''"

definition two_rows :: backend where
  "two_rows = \<lparr>table_rows = [museum_row, hall_row], table_error = None, rpc_nearby = no_rpc\<rparr>"

definition one_row :: backend where
  "one_row = \<lparr>table_rows = [museum_row], table_error = None, rpc_nearby = no_rpc\<rparr>"

definition down :: backend where
  "down = \<lparr>table_rows = [museum_row, hall_row], table_error = Some ''connection refused'',
           rpc_nearby = no_rpc\<rparr>"

definition pair_row :: "string \<Rightarrow> string \<Rightarrow> jsval" where
  "pair_row t te = JObj [(''title'', JStr t), (''titleEn'', JStr te)]"

definition six_pairs :: backend where
  "six_pairs =
     \<lparr>table_rows =
        [pair_row ''a1'' ''A1 en'', pair_row ''a2'' ''A2 en'', pair_row ''a3'' ''A3 en'',
         pair_row ''a4'' ''A4 en'', pair_row ''a5'' ''A5 en'', pair_row ''a6'' ''A6 en''],
      table_error = None, rpc_nearby = no_rpc\<rparr>"

text \<open>
  A location filter centred on the origin, the default filters, and tables holding only
  the unplaced row or only the sparse row.
\<close>

definition default_filters :: SearchFilters where
  "default_filters =
     \<lparr>query = [], radius = 5, architects = [], buildingTypes = [], prefectures = [], areas = [],
      hasPhotos = False, hasVideos = False, currentLocation = None\<rparr>"

definition unplaced_only :: backend where
  "unplaced_only = \<lparr>table_rows = [unplaced_row], table_error = None, rpc_nearby = no_rpc\<rparr>"


definition origin_filters :: SearchFilters where
  "origin_filters =
     \<lparr>query = [], radius = 5, architects = [], buildingTypes = [], prefectures = [], areas = [],
      hasPhotos = False, hasVideos = False, currentLocation = Some (0, 0)\<rparr>"

definition sparse_only :: backend where
  "sparse_only = \<lparr>table_rows = [sparse_row], table_error = None, rpc_nearby = no_rpc\<rparr>"

text \<open>A query with the one-character wildcard, and a query with surrounding spaces.\<close>

definition wildcard_filters :: SearchFilters where
  "wildcard_filters =
     \<lparr>query = ''_all_'', radius = 5, architects = [], buildingTypes = [], prefectures = [], areas = [],
      hasPhotos = False, hasVideos = False, currentLocation = None\<rparr>"

definition padded_filters :: SearchFilters where
  "padded_filters =
     \<lparr>query = '' museum '', radius = 5, architects = [], buildingTypes = [], prefectures = [],
      areas = [], hasPhotos = False, hasVideos = False, currentLocation = None\<rparr>"

text \<open>A joined row without the four defaulted fields whose join entry has no architect.\<close>

definition orphan_row :: jsval where
  "orphan_row =
     JObj [(''building_id'', JNum (Fin 5)),
           (''uid'', JStr ''bld-0005''),
           (''title'', JStr ''Annex E''),
           (''building_architects'', JArr [JObj [(''architects_table'', JNull)]])]"

text \<open>A building whose id is the integer \<open>10^21\<close>.\<close>

definition huge_source :: slug_source where
  "huge_source = \<lparr>b_id = 1000000000000000000000, b_title = ''Tower'', b_titleEn = []\<rparr>"

definition hello_source :: slug_source where
  "hello_source = \<lparr>b_id = 12, b_title = ''Foo'', b_titleEn = ''Hello,  World -- Big''\<rparr>"

definition healthy_then_down :: "backend list" where
  "healthy_then_down = [two_rows, down, two_rows]"

text \<open>Reading one field, the ids, or the total off a result that may be an error.\<close>

definition result_field :: "string \<Rightarrow> jserror + jsval \<Rightarrow> jserror + jsval" where
  "result_field k res = ebind res (\<lambda>b. Inr (field b k))"

definition id_list :: "jsval list \<Rightarrow> jsval list" where
  "id_list bs = map (\<lambda>b. field b ''id'') bs"

definition page_ids :: "jserror + page_result \<Rightarrow> jserror + jsval list" where
  "page_ids res = ebind res (\<lambda>p. Inr (id_list (buildings p)))"

definition page_total :: "jserror + page_result \<Rightarrow> jserror + nat" where
  "page_total res = ebind res (\<lambda>p. Inr (total p))"

definition local_ids :: "jserror + jsval list \<Rightarrow> jserror + jsval list" where
  "local_ids res = ebind res (\<lambda>bs. Inr (id_list bs))"

definition suggestion_count :: "jserror + string list \<Rightarrow> jserror + nat" where
  "suggestion_count res = ebind res (\<lambda>xs. Inr (length xs))"

definition page_field :: "string \<Rightarrow> jserror + page_result \<Rightarrow> jserror + jsval list" where
  "page_field k res = ebind res (\<lambda>p. Inr (map (\<lambda>b. field b k) (buildings p)))"

text \<open>A stored row passes every clause that \<open>searchBuildings\<close> builds from the filters.\<close>

definition remote_matches :: "SearchFilters \<Rightarrow> jsval \<Rightarrow> bool" where
  "remote_matches f r = list_all (\<lambda>c. clause_holds c r) (search_clauses f)"

text \<open>The stored rows \<open>searchBuildings\<close> gets back: joined to an architect, and passing the clauses.\<close>

definition remote_keeps :: "SearchFilters \<Rightarrow> jsval \<Rightarrow> bool" where
  "remote_keeps f r = (has_architects r \<and> remote_matches f r)"

section \<open>Facts about the error plumbing\<close>

lemma ebind_Inr_iff: "ebind m f = Inr y \<longleftrightarrow> (\<exists>x. m = Inr x \<and> f x = Inr y)"
  by (cases m) (auto simp: ebind_def)

lemma ebind_Inl [simp]: "ebind (Inl e) f = Inl e"
  by (simp add: ebind_def)

lemma ebind_Inr [simp]: "ebind (Inr x) f = f x"
  by (simp add: ebind_def)

lemma nullish_parseFloat: "nullish v \<Longrightarrow> parseFloat v = NaN"
  by (cases v) auto

lemma nullish_not_truthy: "nullish v \<Longrightarrow> \<not> truthy v"
  by (cases v) auto

section \<open>The normalizer: totality, defaults, photos, re-application\<close>

lemma splittable_parses: "splittable v \<Longrightarrow> \<exists>xs. parseCommaSeparated v = Inr (JArr xs)"
  by (auto simp: splittable_def parseCommaSeparated_def split: jsval.splits)

lemma parseCommaSeparated_array: "parseCommaSeparated v = Inr x \<Longrightarrow> \<exists>xs. x = JArr xs"
  by (auto simp: parseCommaSeparated_def split: if_splits jsval.splits)

lemma parseCommaSeparated_of_array [simp]: "parseCommaSeparated (JArr xs) = Inl TypeError"
  by (simp add: parseCommaSeparated_def)

lemma emap_architect_of:
  "list_all (\<lambda>ba. \<not> nullish ba \<and> \<not> nullish (field ba ''architects_table'')) bas
     \<Longrightarrow> \<exists>as. emap architect_of bas = Inr as"
proof (induction bas)
  case Nil
  then show ?case by simp
next
  case (Cons ba bas)
  then obtain as where "emap architect_of bas = Inr as" by auto
  moreover from Cons.prems have "\<exists>a. architect_of ba = Inr a"
    by (simp add: architect_of_def Let_def)
  ultimately show ?case by auto
qed

lemma joined_ok_maps: "joined_ok rel \<Longrightarrow> \<exists>as. architects_of rel = Inr (JArr as)"
proof (cases "nullish rel")
  case True
  then show ?thesis by (simp add: architects_of_def)
next
  case False
  assume "joined_ok rel"
  with False obtain bas where rel: "rel = JArr bas"
    and ok: "list_all (\<lambda>ba. \<not> nullish ba \<and> \<not> nullish (field ba ''architects_table'')) bas"
    by (auto simp: joined_ok_def split: jsval.splits)
  from emap_architect_of[OF ok] obtain as where "emap architect_of bas = Inr as" ..
  with rel show ?thesis by (simp add: architects_of_def)
qed

lemma normalizable_succeeds:
  assumes "normalizable r"
  shows "\<exists>b. transformBuilding clk r = Inr b"
proof -
  from assms obtain pbt bt ps st where
    "parseCommaSeparated (field r ''parentBuildingTypes'') = Inr (JArr pbt)"
    "parseCommaSeparated (field r ''buildingTypes'') = Inr (JArr bt)"
    "parseCommaSeparated (field r ''parentStructures'') = Inr (JArr ps)"
    "parseCommaSeparated (field r ''structures'') = Inr (JArr st)"
    unfolding normalizable_def using splittable_parses by metis
  moreover from assms obtain as where "architects_of (field r ''building_architects'') = Inr (JArr as)"
    unfolding normalizable_def using joined_ok_maps by metis
  moreover from assms have "\<not> nullish r" by (simp add: normalizable_def)
  ultimately show ?thesis by (simp add: transformBuilding_def)
qed

text \<open>
  C5, as the code has it. Normalization never fails on a raw row, and a row that lacks \<open>lat\<close>, \<open>lng\<close>,
  \<open>completionYears\<close> or \<open>titleEn\<close> gets the documented defaults: a coordinate that is
  absent or does not parse as a number becomes 0, a year that is absent or does not parse
  becomes the current calendar year, an absent \<open>titleEn\<close> becomes the title. A raw row is
  a row of the table: its list columns are strings or null and its joined relation is
  well formed (\<open>normalizable\<close>); nothing is asked of the four defaulted fields.
\<close>

theorem normalize_total_with_defaults:
  assumes "normalizable r"
  shows "\<exists>b. transformBuilding clk r = Inr b \<and>
    (nullish (field r ''lat'') \<or> parseFloat (field r ''lat'') = NaN
       \<longrightarrow> field b ''lat'' = JNum (Fin 0)) \<and>
    (nullish (field r ''lng'') \<or> parseFloat (field r ''lng'') = NaN
       \<longrightarrow> field b ''lng'' = JNum (Fin 0)) \<and>
    (nullish (field r ''completionYears'') \<or> parseInt (field r ''completionYears'') = None
       \<longrightarrow> field b ''completionYears'' = JNum (Fin (of_int (full_year clk)))) \<and>
    (nullish (field r ''titleEn'') \<longrightarrow> field b ''titleEn'' = field r ''title'')"
proof -
  from assms obtain pbt bt ps st where
    p: "parseCommaSeparated (field r ''parentBuildingTypes'') = Inr (JArr pbt)"
       "parseCommaSeparated (field r ''buildingTypes'') = Inr (JArr bt)"
       "parseCommaSeparated (field r ''parentStructures'') = Inr (JArr ps)"
       "parseCommaSeparated (field r ''structures'') = Inr (JArr st)"
    unfolding normalizable_def using splittable_parses by metis
  from assms obtain as where a: "architects_of (field r ''building_architects'') = Inr (JArr as)"
    unfolding normalizable_def using joined_ok_maps by metis
  from assms have n: "\<not> nullish r" by (simp add: normalizable_def)
  show ?thesis
    using n p a
    by (auto simp: transformBuilding_def parseYear_def nullish_parseFloat nullish_not_truthy js_or_def)
qed

theorem normalize_total_with_defaults_witness:
  "normalizable sparse_row \<and>
   nullish (field sparse_row ''lat'') \<and> nullish (field sparse_row ''lng'') \<and>
   nullish (field sparse_row ''completionYears'') \<and> nullish (field sparse_row ''titleEn'') \<and>
   (\<exists>b. transformBuilding sample_clock sparse_row = Inr b \<and>
        field b ''lat'' = JNum (Fin 0) \<and> field b ''lng'' = JNum (Fin 0) \<and>
        field b ''completionYears'' = JNum (Fin 2025) \<and>
        field b ''titleEn'' = JStr ''Station C'')"
proof -
  have h: "normalizable sparse_row" by code_simp
  have a: "nullish (field sparse_row ''lat'')" "nullish (field sparse_row ''lng'')"
    "nullish (field sparse_row ''completionYears'')" "nullish (field sparse_row ''titleEn'')"
    by code_simp+
  have t: "field sparse_row ''title'' = JStr ''Station C''" by code_simp
  have y: "full_year sample_clock = 2025" by (simp add: sample_clock_def)
  from normalize_total_with_defaults[OF h, of sample_clock] a t y h show ?thesis
    by auto
qed

text \<open>
  The rows the normalizer accepts are exactly the \<open>normalizable\<close> ones, and on any other
  input it throws a TypeError.
\<close>

lemma parseCommaSeparated_splittable: "parseCommaSeparated v = Inr x \<Longrightarrow> splittable v"
  by (auto simp: parseCommaSeparated_def splittable_def split: if_splits jsval.splits)

lemma emap_architect_of_ok:
  "emap architect_of bas = Inr as \<Longrightarrow>
     list_all (\<lambda>ba. \<not> nullish ba \<and> \<not> nullish (field ba ''architects_table'')) bas"
proof (induction bas arbitrary: as)
  case Nil
  then show ?case by simp
next
  case (Cons ba bas)
  then show ?case
    by (auto simp: architect_of_def Let_def split: sum.splits if_splits)
qed

lemma architects_of_joined_ok: "architects_of rel = Inr x \<Longrightarrow> joined_ok rel"
  by (cases rel) (auto simp: architects_of_def joined_ok_def ebind_Inr_iff dest: emap_architect_of_ok)

lemma normalizes_only_normalizable:
  assumes "transformBuilding clk r = Inr b"
  shows "normalizable r"
  using assms
  by (auto simp: transformBuilding_def normalizable_def ebind_Inr_iff
           split: if_splits
           dest: parseCommaSeparated_splittable architects_of_joined_ok)

lemma transformBuilding_error: "transformBuilding clk r = Inl e \<Longrightarrow> e = TypeError"
proof -
  have pc: "\<And>v e. parseCommaSeparated v = Inl e \<Longrightarrow> e = TypeError"
    by (auto simp: parseCommaSeparated_def split: if_splits jsval.splits)
  have em: "\<And>bas e. emap architect_of bas = Inl e \<Longrightarrow> e = TypeError"
  proof -
    fix bas e show "emap architect_of bas = Inl e \<Longrightarrow> e = TypeError"
      by (induction bas) (auto simp: architect_of_def Let_def split: sum.splits if_splits)
  qed
  have ar: "\<And>v e. architects_of v = Inl e \<Longrightarrow> e = TypeError"
    using em by (auto simp: architects_of_def ebind_def split: if_splits jsval.splits sum.splits)
  assume "transformBuilding clk r = Inl e"
  then show ?thesis
    using pc ar
    by (auto simp: transformBuilding_def ebind_def split: if_splits sum.splits)
qed

text \<open>
  C5, as stated, fails: a joined row without \<open>lat\<close>, \<open>lng\<close>, \<open>completionYears\<close> and
  \<open>titleEn\<close> whose join entry carries no architect makes the normalizer throw.
\<close>

theorem normalize_fails_on_orphan_join:
  "transformBuilding sample_clock orphan_row = Inl TypeError"
  by code_simp

lemma photos_always_empty: "transformBuilding clk r = Inr b \<Longrightarrow> field b ''photos'' = JArr []"
  by (auto simp: transformBuilding_def ebind_Inr_iff split: if_splits)

text \<open>
  C6. The claim is that \<open>photos\<close> is filled from the row's photos relation whenever the row
  carries one. On the row of Museum A, which carries one photo, the normalizer returns the
  empty sequence.
\<close>

theorem photos_relation_dropped:
  "field museum_row ''photos'' \<noteq> JArr [] \<and>
   result_field ''photos'' (transformBuilding sample_clock museum_row) = Inr (JArr [])"
  by code_simp

lemma transformBuilding_Inr:
  assumes "transformBuilding clk r = Inr b"
  shows "\<exists>xs. field b ''parentBuildingTypes'' = JArr xs \<and> \<not> nullish b"
  using assms
  by (auto simp: transformBuilding_def ebind_Inr_iff split: if_splits dest!: parseCommaSeparated_array)

text \<open>
  C2, as the code has it. The normalizer cannot be applied to its own result: the result's
  \<open>parentBuildingTypes\<close> is an array, \<open>parseCommaSeparated\<close> calls \<open>split\<close> on it, and the
  second application throws a TypeError, whatever the raw row and the clock.
\<close>

theorem renormalize_always_fails:
  assumes "transformBuilding clk r = Inr b"
  shows "transformBuilding clk' b = Inl TypeError \<and> renormalize clk r = Inl TypeError"
proof -
  from assms obtain xs where "field b ''parentBuildingTypes'' = JArr xs" "\<not> nullish b"
    using transformBuilding_Inr by blast
  then have "\<And>c. transformBuilding c b = Inl TypeError"
    by (simp add: transformBuilding_def)
  with assms show ?thesis by (simp add: renormalize_def)
qed

theorem renormalize_always_fails_witness:
  "result_field ''id'' (transformBuilding sample_clock museum_row) = Inr (JNum (Fin 1)) \<and>
   renormalize sample_clock museum_row = Inl TypeError"
proof -
  have h: "normalizable museum_row" by code_simp
  from normalizable_succeeds[OF h, of sample_clock]
  obtain b where b: "transformBuilding sample_clock museum_row = Inr b" by blast
  have "result_field ''id'' (transformBuilding sample_clock museum_row) = Inr (JNum (Fin 1))"
    by code_simp
  with renormalize_always_fails[OF b] show ?thesis by simp
qed

text \<open>
  C2, as stated, fails: normalizing the normalized Museum A does not give the normalized
  Museum A back, it fails.
\<close>

theorem renormalize_not_idempotent:
  "renormalize sample_clock museum_row \<noteq> transformBuilding sample_clock museum_row"
  by code_simp

section \<open>The two search paths\<close>

lemma emap_Inr_iff: "emap f xs = Inr ys \<longleftrightarrow> list_all2 (\<lambda>x y. f x = Inr y) xs ys"
proof (induction xs arbitrary: ys)
  case Nil
  then show ?case by auto
next
  case (Cons x xs)
  show ?case
    by (cases ys; cases "f x"; cases "emap f xs") (auto simp: Cons.IH[symmetric])
qed

lemma emap_total:
  "(\<And>x. x \<in> set xs \<Longrightarrow> \<exists>y. f x = Inr y) \<Longrightarrow> \<exists>ys. emap f xs = Inr ys"
proof (induction xs)
  case Nil
  then show ?case by simp
next
  case (Cons x xs)
  then obtain y ys where "f x = Inr y" "emap f xs = Inr ys" by (metis list.set_intros)
  then show ?case by simp
qed

lemma emap_filter_commute:
  assumes "emap f xs = Inr ys"
    and "\<And>x y. x \<in> set xs \<Longrightarrow> f x = Inr y \<Longrightarrow> P x = Q y"
  shows "emap f (filter P xs) = Inr (filter Q ys)"
  using assms
proof (induction xs arbitrary: ys)
  case Nil
  then show ?case by simp
next
  case (Cons x xs)
  from Cons.prems(1) obtain y ys' where y: "f x = Inr y" and ys': "emap f xs = Inr ys'"
    and ys: "ys = y # ys'"
    by (auto split: sum.splits)
  have ih: "emap f (filter P xs) = Inr (filter Q ys')"
    using Cons.IH[OF ys'] Cons.prems(2) by simp
  have pq: "P x = Q y" using Cons.prems(2)[of x y] y by simp
  show ?case using y ih pq ys by simp
qed

lemma emap_source:
  "emap f xs = Inr ys \<Longrightarrow> y \<in> set ys \<Longrightarrow> \<exists>x \<in> set xs. f x = Inr y"
proof (induction xs arbitrary: ys)
  case Nil
  then show ?case by simp
next
  case (Cons x xs)
  then show ?case by (auto split: sum.splits)
qed

section \<open>Filter strings with a literal query\<close>

lemma like_match_literal:
  "list_all (\<lambda>c. c \<notin> set [CHR ''%'', CHR ''*'', CHR ''_'', CHR 0x5C]) lit \<Longrightarrow>
     like_match (lit @ ps) s \<longleftrightarrow> (\<exists>rest. s = lit @ rest \<and> like_match ps rest)"
proof (induction lit arbitrary: s)
  case Nil
  then show ?case by simp
next
  case (Cons l lit)
  then show ?case by (cases s) auto
qed

lemma like_match_any [simp]: "like_match [CHR ''%''] s"
  by (induction s) auto

lemma take_is_lit: "take (length q) xs = q \<longleftrightarrow> (\<exists>rest. xs = q @ rest)"
  by (metis append_eq_conv_conj append_take_drop_id)

lemma like_contains:
  assumes "list_all (\<lambda>c. c \<notin> set [CHR ''%'', CHR ''*'', CHR ''_'', CHR 0x5C]) lit"
  shows "like_match (CHR ''%'' # lit @ [CHR ''%'']) s \<longleftrightarrow> str_includes s lit"
proof (induction s)
  case Nil
  show ?case using like_match_literal[OF assms, of "[CHR ''%'']" "[]"] by auto
next
  case (Cons c cs)
  have "like_match (lit @ [CHR ''%'']) (c # cs) \<longleftrightarrow> take (length lit) (c # cs) = lit"
    using like_match_literal[OF assms, of "[CHR ''%'']" "c # cs"] take_is_lit[of lit "c # cs"] by simp
  with Cons show ?case by simp
qed

lemma to_lower_char_plain:
  assumes "c \<notin> set [CHR ''%'', CHR ''*'', CHR ''_'', CHR 0x5C]"
  shows "to_lower_char c \<notin> set [CHR ''%'', CHR ''*'', CHR ''_'', CHR 0x5C]"
proof (cases "(65::nat) \<le> of_char c \<and> of_char c \<le> (90::nat)")
  case False
  with assms show ?thesis by (auto simp: to_lower_char_def)
next
  case True
  define d where "d = char_of (of_char c + (32::nat))"
  have "of_char d = (of_char c + (32::nat))" using True by (simp add: d_def)
  with True have "97 \<le> (of_char d :: nat)" by simp
  then have "d \<noteq> CHR ''%'' \<and> d \<noteq> CHR ''*'' \<and> d \<noteq> CHR ''_'' \<and> d \<noteq> CHR 0x5C"
    by auto
  with True show ?thesis by (auto simp: to_lower_char_def d_def)
qed

lemma wild_free_lower: "wild_free q \<Longrightarrow> wild_free (toLowerCase q)"
  using to_lower_char_plain by (simp add: wild_free_def toLowerCase_def list_all_iff)

lemma lower_pattern: "toLowerCase (CHR ''%'' # q @ [CHR ''%'']) = CHR ''%'' # toLowerCase q @ [CHR ''%'']"
  by (simp add: toLowerCase_def to_lower_char_def)

lemma ilike_contains_iff:
  assumes "wild_free q"
  shows "ilike (CHR ''%'' # q @ [CHR ''%'']) s \<longleftrightarrow> str_includes (toLowerCase s) (toLowerCase q)"
  using like_contains[of "toLowerCase q" "toLowerCase s"] wild_free_lower[OF assms]
  by (simp add: ilike_def lower_pattern wild_free_def)

lemma no_escape_ok: "CHR 0x5C \<notin> set p \<Longrightarrow> pattern_ok p"
  by (induction p rule: pattern_ok.induct) auto

lemma split_on_nonempty: "split_on sep s \<noteq> []"
  by (induction s) (auto split: list.splits)

lemma split_on_first:
  "sep \<notin> set xs \<Longrightarrow> split_on sep (xs @ sep # ys) = xs # split_on sep ys"
proof (induction xs)
  case Nil
  then show ?case by simp
next
  case (Cons x xs)
  then show ?case by auto
qed

lemma split_on_none: "sep \<notin> set xs \<Longrightarrow> split_on sep xs = [xs]"
  by (induction xs) auto

lemma or_conditions_plain:
  assumes "list_all plain_char q"
  shows "or_conditions (search_or_filter q) =
     Some [(''title'', CHR ''%'' # q @ [CHR ''%'']), (''titleEn'', CHR ''%'' # q @ [CHR ''%'']),
           (''location'', CHR ''%'' # q @ [CHR ''%''])]"
proof -
  from assms have c: "CHR '','' \<notin> set q" and p: "CHR ''('' \<notin> set q" "CHR '')'' \<notin> set q"
    and b: "CHR 0x5C \<notin> set q"
    by (auto simp: list_all_iff plain_char_def)
  have ok: "pattern_ok (CHR ''%'' # q @ [CHR ''%''])"
    using b by (intro no_escape_ok) simp
  have form: "search_or_filter q =
      (''title.ilike.%'' @ q @ ''%'') @ CHR '','' #
      ((''titleEn.ilike.%'' @ q @ ''%'') @ CHR '','' # (''location.ilike.%'' @ q @ ''%''))"
    by (simp add: search_or_filter_def)
  have s: "split_on CHR '','' (search_or_filter q) =
      [''title.ilike.%'' @ q @ ''%'', ''titleEn.ilike.%'' @ q @ ''%'', ''location.ilike.%'' @ q @ ''%'']"
    unfolding form using c
    by (subst split_on_first, simp, subst split_on_first, simp, subst split_on_none, simp, simp)
  have 1: "parse_cond (''title.ilike.%'' @ q @ ''%'') = Some (''title'', CHR ''%'' # q @ [CHR ''%''])"
    using p ok by (simp add: parse_cond_def Let_def)
  have 2: "parse_cond (''titleEn.ilike.%'' @ q @ ''%'') = Some (''titleEn'', CHR ''%'' # q @ [CHR ''%''])"
    using p ok by (simp add: parse_cond_def Let_def)
  have 3: "parse_cond (''location.ilike.%'' @ q @ ''%'') = Some (''location'', CHR ''%'' # q @ [CHR ''%''])"
    using p ok by (simp add: parse_cond_def Let_def)
  show ?thesis
    using 1 2 3 by (simp add: or_conditions_def s)
qed

lemma plain_wild_free: "list_all plain_char q \<Longrightarrow> wild_free q"
  by (auto simp: wild_free_def plain_char_def list_all_iff)

lemma cond_contains:
  "wild_free q \<Longrightarrow> cond_holds r (col, CHR ''%'' # q @ [CHR ''%'']) \<longleftrightarrow> contains_ci q (field r col)"
  by (cases "field r col") (simp_all add: cond_holds_def contains_ci_def ilike_contains_iff)

lemma search_filter_plain:
  assumes "list_all plain_char q"
  shows "clause_ok (OrFilter (search_or_filter q))"
    and "clause_holds (OrFilter (search_or_filter q)) r \<longleftrightarrow>
          contains_ci q (field r ''title'') \<or> contains_ci q (field r ''titleEn'') \<or>
          contains_ci q (field r ''location'')"
  using or_conditions_plain[OF assms] cond_contains[OF plain_wild_free[OF assms]]
  by simp_all

lemma search_clauses_ok: "literal_query (query f) \<Longrightarrow> list_all clause_ok (search_clauses f)"
  by (cases "currentLocation f")
     (auto simp: search_clauses_def literal_query_def search_filter_plain(1) simp del: clause_ok.simps(1))

lemma searchBuildings_answer:
  assumes "table_error bk = None" and "list_all clause_ok (search_clauses f)"
  shows "searchBuildings bk clk f =
     ebind (emap (transformBuilding clk) (filter (remote_keeps f) (table_rows bk)))
       (\<lambda>bs. Inr \<lparr>buildings = bs, total = length (filter (remote_keeps f) (table_rows bk))\<rparr>)"
proof -
  have "remote_keeps f =
      (\<lambda>r. has_architects r \<and> list_all (\<lambda>c. clause_holds c r) (search_clauses f))"
    by (rule ext) (simp add: remote_keeps_def remote_matches_def)
  with assms show ?thesis
    by (simp add: searchBuildings_def run_request_def transform_all_def count_or_zero_def Let_def)
qed

lemma searchBuildings_rejected:
  "table_error bk = Some msg \<Longrightarrow> searchBuildings bk clk f = Inl (SupabaseApiError 500 msg)"
  by (simp add: searchBuildings_def run_request_def)

lemma searchBuildings_unreadable:
  "table_error bk = None \<Longrightarrow> \<not> list_all clause_ok (search_clauses f) \<Longrightarrow>
     searchBuildings bk clk f = Inl (SupabaseApiError 500 ''failed to parse logic tree'')"
  by (simp add: searchBuildings_def run_request_def)

lemma searchBuildings_Inr:
  assumes "searchBuildings bk clk f = Inr res"
  shows "table_error bk = None" and "list_all clause_ok (search_clauses f)"
proof -
  show e: "table_error bk = None"
    using assms by (cases "table_error bk") (auto simp: searchBuildings_rejected)
  show "list_all clause_ok (search_clauses f)"
    using assms searchBuildings_unreadable[OF e, of f clk] by auto
qed

lemma transformBuilding_fields:
  assumes "transformBuilding clk r = Inr b"
  shows "field b ''id'' = field r ''building_id''"
    and "field b ''title'' = field r ''title''"
    and "field b ''titleEn'' = js_or (field r ''titleEn'') (field r ''title'')"
    and "field b ''location'' = field r ''location''"
    and "field b ''prefectures'' = field r ''prefectures''"
    and "field b ''thumbnailUrl'' = js_or (field r ''thumbnailUrl'') (JStr [])"
    and "field b ''youtubeUrl'' = js_or (field r ''youtubeUrl'') (JStr [])"
    and "field b ''lat'' = js_or (JNum (parseFloat (field r ''lat''))) (JNum (Fin 0))"
    and "field b ''lng'' = js_or (JNum (parseFloat (field r ''lng''))) (JNum (Fin 0))"
  using assms
  by (auto simp: transformBuilding_def ebind_Inr_iff split: if_splits)

lemma trimmed_nonempty: "js_trim q \<noteq> [] \<Longrightarrow> q \<noteq> []"
  by (auto simp: js_trim_def)

lemma falsy_no_match: "q \<noteq> [] \<Longrightarrow> \<not> truthy v \<Longrightarrow> \<not> contains_ci q v"
  by (cases v) (auto simp: contains_ci_def toLowerCase_def)

lemma titleEn_fallback_match:
  assumes "q \<noteq> []"
  shows "(contains_ci q t \<or> contains_ci q (js_or te t) \<or> contains_ci q l)
     \<longleftrightarrow> (contains_ci q t \<or> contains_ci q te \<or> contains_ci q l)"
  using falsy_no_match[OF assms, of te]
  by (auto simp: js_or_def)

lemma ref_present_iff: "ref_or_null v \<Longrightarrow> present_ref (js_or v (JStr [])) \<longleftrightarrow> \<not> nullish v"
  by (cases v) (auto simp: ref_or_null_def present_ref_def js_or_def)

lemma finite_band':
  "finite_num (field r k) \<Longrightarrow>
     in_band lo hi (js_or (JNum (parseFloat (field r k))) (JNum (Fin 0)))
       \<longleftrightarrow> clause_holds (Gte k lo) r \<and> clause_holds (Lte k hi) r"
  by (auto simp: finite_num_def in_band_def js_or_def split: jsval.splits jsnum.splits)

lemma local_iff_remote:
  assumes l: "literal_query (query f)"
    and c: "comparable_row f r" and t: "transformBuilding clk r = Inr b"
  shows "local_matches f b \<longleftrightarrow> remote_matches f r"
proof -
  note fs = transformBuilding_fields[OF t]
  have q: "(contains_ci (js_trim (query f)) (field b ''title'') \<or>
       contains_ci (js_trim (query f)) (field b ''titleEn'') \<or>
       contains_ci (js_trim (query f)) (field b ''location''))
      \<longleftrightarrow> clause_holds (OrFilter (search_or_filter (query f))) r"
    if ne: "js_trim (query f) \<noteq> []"
  proof -
    from l ne have same: "js_trim (query f) = query f" and plain: "list_all plain_char (query f)"
      by (auto simp: literal_query_def)
    from ne same have "query f \<noteq> []" by auto
    from titleEn_fallback_match[OF this] show ?thesis
      by (simp add: fs same search_filter_plain(2)[OF plain] del: clause_holds.simps)
  qed
  have p: "hasPhotos f \<Longrightarrow> present_ref (field b ''thumbnailUrl'') \<longleftrightarrow> clause_holds (NotIsNull ''thumbnailUrl'') r"
    using c ref_present_iff by (simp add: fs comparable_row_def)
  have v: "hasVideos f \<Longrightarrow> present_ref (field b ''youtubeUrl'') \<longleftrightarrow> clause_holds (NotIsNull ''youtubeUrl'') r"
    using c ref_present_iff by (simp add: fs comparable_row_def)
  have g: "currentLocation f \<noteq> None \<Longrightarrow>
      (in_band lo hi (field b ''lat'') \<longleftrightarrow> clause_holds (Gte ''lat'' lo) r \<and> clause_holds (Lte ''lat'' hi) r) \<and>
      (in_band lo' hi' (field b ''lng'') \<longleftrightarrow> clause_holds (Gte ''lng'' lo') r \<and> clause_holds (Lte ''lng'' hi') r)"
    for lo hi lo' hi'
    using c finite_band' by (simp add: fs comparable_row_def)
  have pr: "prefectures f \<noteq> [] \<Longrightarrow>
      (case field b ''prefectures'' of JStr s \<Rightarrow> s \<in> set (prefectures f) | _ \<Rightarrow> False)
      \<longleftrightarrow> clause_holds (IsIn ''prefectures'' (prefectures f)) r"
    by (simp add: fs)
  show ?thesis
    unfolding local_matches_def remote_matches_def search_clauses_def
    using q p v pr g
    by (cases "currentLocation f") (auto simp del: clause_holds.simps)
qed

lemma comparable_normalizable: "comparable_row f r \<Longrightarrow> normalizable r"
  by (simp add: comparable_row_def)

lemma local_iff_keeps:
  assumes "literal_query (query f)" and "comparable_row f r" and "transformBuilding clk r = Inr b"
  shows "local_matches f b \<longleftrightarrow> remote_keeps f r"
  using local_iff_remote[OF assms] assms(2) by (simp add: remote_keeps_def comparable_row_def)

text \<open>
  C1, as the code has it. For a query that is blank, or is made of ASCII characters with
  no surrounding white space and none of \<open>%\<close>, \<open>*\<close>, \<open>_\<close>, the backslash, the comma
  and the parentheses, over a table that answers and whose rows are comparable under the
  filters (each row has a joined architect, a media reference read by a set flag is null
  or a non-empty string, the coordinates read by a location filter are finite numbers),
  the buildings the remote clauses of \<open>searchBuildings\<close> return are the normalized rows
  the local predicate keeps; in particular the two sets of ids are equal.
\<close>

theorem remote_local_agree:
  assumes ok: "table_error bk = None"
    and lit: "literal_query (query f)"
    and rows: "\<forall>r \<in> set (table_rows bk). comparable_row f r"
  shows "\<exists>res bs. searchBuildings bk clk f = Inr res \<and>
           local_path clk f (table_rows bk) = Inr bs \<and>
           buildings res = bs \<and> ids_of (buildings res) = ids_of bs"
proof -
  have "\<And>r. r \<in> set (table_rows bk) \<Longrightarrow> \<exists>b. transformBuilding clk r = Inr b"
    using rows comparable_normalizable normalizable_succeeds by blast
  then obtain all where all: "emap (transformBuilding clk) (table_rows bk) = Inr all"
    using emap_total by blast
  have "emap (transformBuilding clk) (filter (remote_keeps f) (table_rows bk))
          = Inr (filter (local_matches f) all)"
  proof (rule emap_filter_commute[OF all])
    fix r b
    assume "r \<in> set (table_rows bk)" and "transformBuilding clk r = Inr b"
    with rows lit show "remote_keeps f r = local_matches f b"
      using local_iff_keeps by blast
  qed
  then have "searchBuildings bk clk f =
      Inr \<lparr>buildings = filter (local_matches f) all,
           total = length (filter (remote_keeps f) (table_rows bk))\<rparr>"
    by (simp add: searchBuildings_answer[OF ok search_clauses_ok[OF lit]])
  moreover have "local_path clk f (table_rows bk) = Inr (filter (local_matches f) all)"
    by (simp add: local_path_def all)
  ultimately show ?thesis by simp
qed

theorem remote_local_agree_witness:
  "table_error one_row = None \<and> literal_query (query tokyo_filters) \<and>
   list_all (comparable_row tokyo_filters) (table_rows one_row) \<and>
   page_ids (searchBuildings one_row sample_clock tokyo_filters) = Inr [JNum (Fin 1)] \<and>
   local_ids (local_path sample_clock tokyo_filters (table_rows one_row)) = Inr [JNum (Fin 1)]"
proof -
  have e: "table_error one_row = None" by (simp add: one_row_def)
  have c: "\<forall>r \<in> set (table_rows one_row). comparable_row tokyo_filters r"
    by code_simp
  have l: "local_ids (local_path sample_clock tokyo_filters (table_rows one_row)) = Inr [JNum (Fin 1)]"
    by code_simp
  have q: "literal_query (query tokyo_filters)" by code_simp
  from remote_local_agree[OF e q c, of sample_clock] l e c q show ?thesis
    by (auto simp: page_ids_def local_ids_def list_all_iff)
qed

text \<open>
  C1, as stated, fails: with \<open>hasPhotos\<close> set, the remote clauses keep Hall B, whose
  thumbnail is the empty string, and the local predicate drops it.
\<close>

theorem remote_local_differ:
  "page_ids (searchBuildings two_rows sample_clock photo_filters) = Inr [JNum (Fin 1), JNum (Fin 2)] \<and>
   local_ids (local_path sample_clock photo_filters (table_rows two_rows)) = Inr [JNum (Fin 1)]"
  by code_simp

text \<open>
  C3, as stated, fails: the search with \<open>hasPhotos\<close> set returns Hall B, whose
  \<open>thumbnailUrl\<close> is the empty string.
\<close>

theorem photo_search_keeps_empty_thumbnail:
  "page_field ''thumbnailUrl'' (searchBuildings two_rows sample_clock photo_filters)
     = Inr [JStr ''https://img.example/1.jpg'', JStr []]"
  by code_simp

lemma photo_clause:
  "hasPhotos f \<Longrightarrow>
     remote_matches f r \<longleftrightarrow> remote_matches (f\<lparr>hasPhotos := False\<rparr>) r \<and> \<not> nullish (field r ''thumbnailUrl'')"
  by (cases "currentLocation f") (auto simp: remote_matches_def search_clauses_def)

text \<open>
  C3, as the code has it. With \<open>hasPhotos\<close> set, a row passes the clauses of the search
  exactly when it passes the clauses of the same filters without the flag and its
  \<open>thumbnailUrl\<close> is not null; every building a search returns is the normalization of a
  stored row whose \<open>thumbnailUrl\<close> is not null. The empty string is not excluded.
\<close>

theorem photo_filter_excludes_null_only:
  assumes "hasPhotos f"
  shows "(remote_matches f r \<longleftrightarrow>
            remote_matches (f\<lparr>hasPhotos := False\<rparr>) r \<and> \<not> nullish (field r ''thumbnailUrl'')) \<and>
         (searchBuildings bk clk f = Inr res \<longrightarrow>
            (\<forall>b \<in> set (buildings res). \<exists>r \<in> set (table_rows bk).
               \<not> nullish (field r ''thumbnailUrl'') \<and> transformBuilding clk r = Inr b))"
proof (intro conjI impI ballI)
  show "remote_matches f r \<longleftrightarrow>
            remote_matches (f\<lparr>hasPhotos := False\<rparr>) r \<and> \<not> nullish (field r ''thumbnailUrl'')"
    using assms by (rule photo_clause)
next
  fix b
  assume s: "searchBuildings bk clk f = Inr res" and b: "b \<in> set (buildings res)"
  note ok = searchBuildings_Inr[OF s]
  from s obtain bs where bs: "emap (transformBuilding clk) (filter (remote_keeps f) (table_rows bk)) = Inr bs"
    and res: "buildings res = bs"
    unfolding searchBuildings_answer[OF ok] by (auto simp: ebind_Inr_iff)
  from emap_source[OF bs] b res obtain r where
    "r \<in> set (filter (remote_keeps f) (table_rows bk))" "transformBuilding clk r = Inr b"
    by blast
  then show "\<exists>r \<in> set (table_rows bk). \<not> nullish (field r ''thumbnailUrl'') \<and> transformBuilding clk r = Inr b"
    using photo_clause[OF assms] by (auto simp: remote_keeps_def)
qed


text \<open>
  The second way the two paths part: a row without coordinates fails the remote band,
  while its normalized form sits at (0, 0) and passes a local band around the origin.
\<close>

lemma remote_local_differ_on_null_coordinates:
  "page_ids (searchBuildings unplaced_only sample_clock origin_filters) = Inr [] \<and>
   local_ids (local_path sample_clock origin_filters (table_rows unplaced_only)) = Inr [JNum (Fin 4)]"
  by code_simp

text \<open>
  The third: the remote select joins the architects with \<open>!inner\<close>, so a row without an
  architect never comes back, whatever the filters; the local predicate does not look at
  the architects.
\<close>

lemma remote_local_differ_without_architects:
  "page_ids (searchBuildings sparse_only sample_clock default_filters) = Inr [] \<and>
   local_ids (local_path sample_clock default_filters (table_rows sparse_only)) = Inr [JNum (Fin 3)]"
  by code_simp

text \<open>
  The fourth: the query goes into the pattern as it is, so \<open>_all_\<close> matches \<open>Hall B\<close>
  remotely, where the local predicate looks for the five characters themselves.
\<close>

lemma remote_local_differ_on_wildcard:
  "page_ids (searchBuildings two_rows sample_clock wildcard_filters) = Inr [JNum (Fin 2)] \<and>
   local_ids (local_path sample_clock wildcard_filters (table_rows two_rows)) = Inr []"
  by code_simp

text \<open>
  The fifth: the remote pattern keeps the spaces around the query, the local predicate
  trims them.
\<close>

lemma remote_local_differ_on_padding:
  "page_ids (searchBuildings one_row sample_clock padded_filters) = Inr [] \<and>
   local_ids (local_path sample_clock padded_filters (table_rows one_row)) = Inr [JNum (Fin 1)]"
  by code_simp

theorem photo_filter_excludes_null_only_witness:
  "hasPhotos photo_filters \<and>
   \<not> nullish (field hall_row ''thumbnailUrl'') \<and> remote_matches photo_filters hall_row \<and>
   nullish (field sparse_row ''thumbnailUrl'') \<and> \<not> remote_matches photo_filters sparse_row \<and>
   (\<exists>res. searchBuildings two_rows sample_clock photo_filters = Inr res \<and>
          length (buildings res) = 2 \<and>
          (\<forall>b \<in> set (buildings res). \<exists>r \<in> set (table_rows two_rows).
             \<not> nullish (field r ''thumbnailUrl'') \<and> transformBuilding sample_clock r = Inr b))"
proof -
  have h: "hasPhotos photo_filters" by (simp add: photo_filters_def)
  have n: "\<not> nullish (field hall_row ''thumbnailUrl'')" "nullish (field sparse_row ''thumbnailUrl'')"
    by code_simp+
  have o: "remote_matches (photo_filters\<lparr>hasPhotos := False\<rparr>) hall_row" by code_simp
  have ids: "page_ids (searchBuildings two_rows sample_clock photo_filters) = Inr [JNum (Fin 1), JNum (Fin 2)]"
    by code_simp
  then obtain res where res: "searchBuildings two_rows sample_clock photo_filters = Inr res"
    and len: "length (buildings res) = 2"
    by (auto simp: page_ids_def ebind_Inr_iff id_list_def)
  from photo_filter_excludes_null_only[OF h, of hall_row two_rows sample_clock res]
       photo_filter_excludes_null_only[OF h, of sparse_row two_rows sample_clock res]
       h n o res len
  show ?thesis by auto
qed

section \<open>Slugs: the id survives the round trip\<close>

lemma digit_chars_are_digits: "list_all (\<lambda>d. is_digit (digit_char d)) [0..<10]"
  by code_simp

lemma digit_char_is_digit: "d < 10 \<Longrightarrow> is_digit (digit_char d)"
  using digit_chars_are_digits by (simp add: list_all_iff)

lemma digit_val_digit_char: "d < 10 \<Longrightarrow> digit_val (digit_char d) = d"
  by (simp add: digit_val_def digit_char_def)

lemma digits_of_digits: "c \<in> set (digits_of n) \<Longrightarrow> is_digit c"
proof (induction n rule: digits_of.induct)
  case (1 n)
  show ?case
  proof (cases "n < 10")
    case True
    with "1.prems" show ?thesis
      by (subst (asm) digits_of.simps) (simp add: digit_char_is_digit)
  next
    case False
    with "1.prems" have "c \<in> set (digits_of (n div 10)) \<or> c = digit_char (n mod 10)"
      by (subst (asm) digits_of.simps) auto
    with False "1.IH" show ?thesis
      by (auto simp: digit_char_is_digit)
  qed
qed

lemma digits_of_nonempty: "digits_of n \<noteq> []"
  by (subst digits_of.simps) simp

lemma digits_val_snoc: "digits_val (ds @ [c]) = 10 * digits_val ds + digit_val c"
  by (simp add: digits_val_def)

lemma digits_val_digits_of: "digits_val (digits_of n) = n"
proof (induction n rule: digits_of.induct)
  case (1 n)
  show ?case
  proof (cases "n < 10")
    case True
    then show ?thesis
      by (subst digits_of.simps) (simp add: digits_val_def digit_val_digit_char)
  next
    case False
    then have "digits_val (digits_of n) = 10 * digits_val (digits_of (n div 10)) + digit_val (digit_char (n mod 10))"
      by (subst digits_of.simps) (simp add: digits_val_snoc)
    with False "1.IH" show ?thesis
      by (simp add: digit_val_digit_char)
  qed
qed

lemma digit_not_space: "is_digit c \<Longrightarrow> \<not> is_space c"
  by (auto simp: is_digit_def is_space_def)

lemma digit_not_sign: "is_digit c \<Longrightarrow> c \<noteq> CHR ''-'' \<and> c \<noteq> CHR ''+''"
  by (auto simp: is_digit_def)

lemma parseInt_str_digits_of: "parseInt_str (digits_of n) = Some (int n)"
proof -
  obtain c cs where ds: "digits_of n = c # cs"
    using digits_of_nonempty by (cases "digits_of n") auto
  have all: "\<forall>x \<in> set (c # cs). is_digit x"
    using digits_of_digits ds by metis
  then have c: "is_digit c" by simp
  have tw: "takeWhile is_digit (c # cs) = c # cs"
    using all by (simp only: takeWhile_eq_all_conv) 
  have "parseInt_digits (c # cs) = Some (digits_val (c # cs))"
    unfolding parseInt_digits_def Let_def tw by simp
  then have "parseInt_str (c # cs) = Some (int (digits_val (c # cs)))"
    using digit_not_space[OF c] digit_not_sign[OF c]
    by (simp add: parseInt_str_def)
  then show ?thesis
    using digits_val_digits_of[of n] ds by simp
qed

text \<open>
  C10, as the code has it. For a building whose id is a non-negative integer below
  \<open>10^21\<close>, the range in which a number prints its decimal digits, \<open>extractIdFromSlug\<close>
  recovers the id that \<open>generateSlug\<close> wrote in front of the first hyphen, whatever the
  titles are.
\<close>

theorem slug_roundtrip:
  assumes "0 \<le> b_id b" and "b_id b < 1000000000000000000000"
  shows "extractIdFromSlug (generateSlug b) = Some (b_id b)"
proof -
  define n where "n = nat (b_id b)"
  have id: "int_to_string (b_id b) = digits_of n"
    using assms by (simp add: int_to_string_def n_def)
  have "CHR ''-'' \<notin> set (digits_of n)"
    using digits_of_digits digit_not_sign by blast
  then have "\<exists>rest ws. split_on CHR ''-'' (generateSlug b) = digits_of n # ws"
    by (simp add: generateSlug_def Let_def id split_on_first)
  then show ?thesis
    using assms by (auto simp: extractIdFromSlug_def parseInt_str_digits_of n_def)
qed

theorem slug_roundtrip_witness:
  "0 \<le> b_id hello_source \<and> b_id hello_source < 1000000000000000000000 \<and>
   generateSlug hello_source = ''12-hello-world-big'' \<and>
   extractIdFromSlug ''12-hello-world-big'' = Some 12"
proof -
  have i: "b_id hello_source = 12" by (simp add: hello_source_def)
  have g: "generateSlug hello_source = ''12-hello-world-big''"
    by code_simp
  have "extractIdFromSlug (generateSlug hello_source) = Some (b_id hello_source)"
    using slug_roundtrip[of hello_source] i by simp
  then have "extractIdFromSlug ''12-hello-world-big'' = Some 12"
    by (simp only: g i)
  with g i show ?thesis by simp
qed

lemma digit_char_01:
  "digit_char 0 = CHR ''0''" "digit_char (Suc 0) = CHR ''1''" "digit_char 2 = CHR ''2''"
proof -
  have "of_char (digit_char 0) = (of_char (CHR ''0'') :: nat)"
    "of_char (digit_char (Suc 0)) = (of_char (CHR ''1'') :: nat)"
    "of_char (digit_char 2) = (of_char (CHR ''2'') :: nat)"
    by (simp_all add: digit_char_def)
  then show "digit_char 0 = CHR ''0''" "digit_char (Suc 0) = CHR ''1''" "digit_char 2 = CHR ''2''"
    by (simp_all only: of_char_eq_iff)
qed

lemma digits_of_1e21: "digits_of 1000000000000000000000 = ''1000000000000000000000''"
  by (simp add: digits_of.simps digit_char_01)

lemma digits_of_21: "digits_of 21 = ''21''"
  by code_simp

lemma int_to_string_1e21: "int_to_string 1000000000000000000000 = ''1e+21''"
proof -
  have "length ''1000000000000000000000'' - 1 = (21::nat)" by simp
  then have "digits_of (length ''1000000000000000000000'' - 1) = ''21''"
    by (simp only: digits_of_21)
  then show ?thesis
    by (simp add: int_to_string_def exp_notation_def Let_def digits_of_1e21)
qed

text \<open>
  C10, as stated, fails: the integer \<open>10^21\<close> prints as \<open>1e+21\<close>, and the id read back
  from the slug is 1.
\<close>

theorem slug_roundtrip_fails_at_1e21:
  "b_id huge_source = 1000000000000000000000 \<and>
   generateSlug huge_source = ''1e+21-tower'' \<and>
   extractIdFromSlug (generateSlug huge_source) = Some 1"
proof -
  have i: "b_id huge_source = 1000000000000000000000" by (simp add: huge_source_def)
  have t: "take 50 (js_trim (replace_runs (\<lambda>c. c = CHR ''-'')
            (replace_runs is_space (filter slug_char (toLowerCase ''Tower''))))) = ''tower''"
    by code_simp
  have g: "generateSlug huge_source = ''1e+21-tower''"
    using t by (simp add: generateSlug_def huge_source_def int_to_string_1e21)
  have "extractIdFromSlug ''1e+21-tower'' = Some 1" by code_simp
  with i g show ?thesis by simp
qed

section \<open>Paging and totals\<close>

lemma getBuildings_total: "getBuildings bk clk page limit = Inr res \<Longrightarrow> total res = 0"
  by (auto simp: getBuildings_def run_request_def Let_def count_or_zero_def ebind_Inr_iff
           split: option.splits if_splits)

lemma searchBuildings_total:
  "searchBuildings bk clk f = Inr res \<Longrightarrow> total res = length (filter (remote_keeps f) (table_rows bk))"
proof -
  assume s: "searchBuildings bk clk f = Inr res"
  note ok = searchBuildings_Inr[OF s]
  from s show ?thesis
    unfolding searchBuildings_answer[OF ok] by (auto simp: ebind_Inr_iff)
qed

lemma getBuildings_window:
  assumes "1 \<le> page" and "1 \<le> limit" and "table_error bk = None"
  shows "getBuildings bk clk page limit =
     ebind (emap (transformBuilding clk)
              (take (nat limit) (drop (nat ((page - 1) * limit)) (filter has_architects (table_rows bk)))))
       (\<lambda>bs. Inr \<lparr>buildings = bs, total = 0\<rparr>)"
proof -
  from assms have "0 \<le> (page - 1) * limit" by simp
  moreover from assms have "\<not> (page - 1) * limit + limit - 1 < (page - 1) * limit" by simp
  moreover have "(page - 1) * limit + limit - 1 - (page - 1) * limit + 1 = limit" by simp
  ultimately show ?thesis
    using assms(3)
    by (simp add: getBuildings_def run_request_def Let_def count_or_zero_def transform_all_def)
qed

text \<open>
  C4. The window is the claimed one (\<open>getBuildings_window\<close>), but the total is not the
  count of the rows: \<open>getBuildings\<close> does not ask for a count, so none comes back and
  \<open>count || 0\<close> is 0, whereas \<open>searchBuildings\<close> asks with \<open>{ count: 'exact' }\<close> and
  returns it (\<open>searchBuildings_total\<close>). On a table of two rows, page 1 with limit 10
  returns both buildings and the total 0.
\<close>

theorem list_total_is_zero:
  "table_error two_rows = None \<and> length (table_rows two_rows) = 2 \<and>
   page_ids (getBuildings two_rows sample_clock 1 10) = Inr [JNum (Fin 1), JNum (Fin 2)] \<and>
   page_total (getBuildings two_rows sample_clock 1 10) = Inr 0"
  by code_simp

section \<open>Nearby buildings\<close>

lemma nearby_readable: "list_all clause_ok (search_clauses (nearby_filters lat lng r))"
  by (simp add: search_clauses_def nearby_filters_def js_trim_def)

lemma nearby_clauses:
  "remote_keeps (nearby_filters lat lng r) row \<longleftrightarrow>
     has_architects row \<and>
     in_band (lat - r * (9 / 1000)) (lat + r * (9 / 1000)) (field row ''lat'') \<and>
     in_band (lng - r * (11 / 1000)) (lng + r * (11 / 1000)) (field row ''lng'')"
  by (auto simp: remote_keeps_def remote_matches_def search_clauses_def nearby_filters_def
                 js_trim_def in_band_def
           split: jsval.splits jsnum.splits)

text \<open>
  C8, as the code has it. When the remote procedure fails, its error is dropped and
  \<open>getNearbyBuildings\<close> is the bounding-box search around the same centre with the same
  radius: over a table that answers, the normalized rows that have an architect and lie
  inside the band; over a table that rejects the query, the transport error of that
  search, status 500, which reaches the caller.
\<close>

theorem nearby_falls_back_to_search:
  assumes "rpc_nearby bk lat lng r = Inl msg"
  shows "(table_error bk = Some err \<longrightarrow>
            getNearbyBuildings bk clk lat lng r = Inl (SupabaseApiError 500 err)) \<and>
         (table_error bk = None \<longrightarrow>
            getNearbyBuildings bk clk lat lng r =
              emap (transformBuilding clk)
                (filter (remote_keeps (nearby_filters lat lng r)) (table_rows bk))) \<and>
         (remote_keeps (nearby_filters lat lng r) row \<longleftrightarrow>
            has_architects row \<and>
            in_band (lat - r * (9 / 1000)) (lat + r * (9 / 1000)) (field row ''lat'') \<and>
            in_band (lng - r * (11 / 1000)) (lng + r * (11 / 1000)) (field row ''lng''))"
proof -
  have rejected: "table_error bk = Some err \<longrightarrow>
      getNearbyBuildings bk clk lat lng r = Inl (SupabaseApiError 500 err)"
    using assms by (simp add: getNearbyBuildings_def searchBuildings_rejected)
  have answered: "getNearbyBuildings bk clk lat lng r =
      emap (transformBuilding clk) (filter (remote_keeps (nearby_filters lat lng r)) (table_rows bk))"
    if ok: "table_error bk = None"
    using assms
    by (cases "emap (transformBuilding clk) (filter (remote_keeps (nearby_filters lat lng r)) (table_rows bk))")
       (simp_all add: getNearbyBuildings_def searchBuildings_answer[OF ok nearby_readable])
  from rejected answered nearby_clauses[of lat lng r row] show ?thesis by blast
qed

theorem nearby_falls_back_to_search_witness:
  "rpc_nearby two_rows (3565 / 100) (13975 / 100) 5 = Inl ''function nearby_buildings does not exist'' \<and>
   table_error two_rows = None \<and>
   local_ids (getNearbyBuildings two_rows sample_clock (3565 / 100) (13975 / 100) 5) = Inr [JNum (Fin 1)] \<and>
   rpc_nearby down 0 0 1 = Inl ''function nearby_buildings does not exist'' \<and>
   table_error down = Some ''connection refused'' \<and>
   getNearbyBuildings down sample_clock 0 0 1 = Inl (SupabaseApiError 500 ''connection refused'')"
proof -
  have r: "rpc_nearby two_rows (3565 / 100) (13975 / 100) 5 = Inl ''function nearby_buildings does not exist''"
    by (simp add: two_rows_def no_rpc_def)
  have e: "table_error two_rows = None" by (simp add: two_rows_def)
  have r': "rpc_nearby down 0 0 1 = Inl ''function nearby_buildings does not exist''"
    by (simp add: down_def no_rpc_def)
  have e': "table_error down = Some ''connection refused''" by (simp add: down_def)
  have v: "local_ids (emap (transformBuilding sample_clock)
      (filter (remote_keeps (nearby_filters (3565 / 100) (13975 / 100) 5)) (table_rows two_rows)))
        = Inr [JNum (Fin 1)]"
    by code_simp
  from nearby_falls_back_to_search[OF r, where clk = sample_clock] e v
  have 1: "local_ids (getNearbyBuildings two_rows sample_clock (3565 / 100) (13975 / 100) 5) = Inr [JNum (Fin 1)]"
    by simp
  from nearby_falls_back_to_search[OF r', where clk = sample_clock and err = "''connection refused''"] e'
  have 2: "getNearbyBuildings down sample_clock 0 0 1 = Inl (SupabaseApiError 500 ''connection refused'')"
    by simp
  from r e 1 r' e' 2 show ?thesis by blast
qed

text \<open>
  C8, as stated, fails: with the remote procedure missing and the table unreachable,
  \<open>getNearbyBuildings\<close> hands its caller the error of the fallback search.
\<close>

theorem nearby_surfaces_search_error:
  "getNearbyBuildings down sample_clock (3565 / 100) (13975 / 100) 5
     = Inl (SupabaseApiError 500 ''connection refused'')"
  by code_simp

section \<open>Search suggestions\<close>

lemma set_add_distinct: "distinct acc \<Longrightarrow> distinct (set_add acc s)"
  by (simp add: set_add_def)

lemma set_add_length: "length (set_add acc s) \<le> Suc (length acc)"
  by (simp add: set_add_def)

lemma set_add_set: "set (set_add acc s) = insert s (set acc)"
  by (auto simp: set_add_def)

lemma collect_suggestions_bound:
  assumes "collect_suggestions q items acc = Inr xs" and "distinct acc"
    and "\<forall>x \<in> set acc. str_includes (toLowerCase x) (toLowerCase q)"
  shows "distinct xs \<and> length xs \<le> length acc + 2 * length items \<and>
         (\<forall>x \<in> set xs. str_includes (toLowerCase x) (toLowerCase q))"
  using assms
proof (induction items arbitrary: acc)
  case Nil
  then show ?case by simp
next
  case (Cons item items)
  from Cons.prems(1) obtain t where t: "field item ''title'' = JStr t" and nn: "\<not> nullish item"
    by (auto split: if_splits jsval.splits)
  define acc1 where "acc1 = (if str_includes (toLowerCase t) (toLowerCase q) then set_add acc t else acc)"
  have d1: "distinct acc1" and l1: "length acc1 \<le> Suc (length acc)"
    and m1: "\<forall>x \<in> set acc1. str_includes (toLowerCase x) (toLowerCase q)"
    using Cons.prems(2,3) set_add_length[of acc t]
    by (auto simp: acc1_def set_add_distinct set_add_set)
  from Cons.prems(1) t nn obtain acc2 where
    rec: "collect_suggestions q items acc2 = Inr xs"
    and a2: "acc2 = acc1 \<or> (\<exists>te. str_includes (toLowerCase te) (toLowerCase q) \<and> acc2 = set_add acc1 te)"
    by (auto simp: acc1_def Let_def split: jsval.splits if_splits)
  from a2 have d2: "distinct acc2" and l2: "length acc2 \<le> Suc (length acc1)"
    and m2: "\<forall>x \<in> set acc2. str_includes (toLowerCase x) (toLowerCase q)"
    using d1 m1 set_add_length[of acc1] by (auto simp: set_add_distinct set_add_set)
  from Cons.IH[OF rec d2 m2] l1 l2 show ?case by simp
qed

lemma collect_suggestions_total:
  "list_all title_row items \<Longrightarrow> \<exists>xs. collect_suggestions q items acc = Inr xs"
proof (induction items arbitrary: acc)
  case Nil
  then show ?case by simp
next
  case (Cons item items)
  then show ?case
    by (auto simp: title_row_def Let_def split: jsval.splits)
qed

lemma getSearchSuggestions_answer:
  assumes "table_error bk = None"
  shows "getSearchSuggestions bk q =
     (if clause_ok (OrFilter (suggest_or_filter q))
      then collect_suggestions q
             (take 10 (filter (\<lambda>r. clause_holds (OrFilter (suggest_or_filter q)) r) (table_rows bk))) []
      else Inr [])"
  using assms by (simp add: getSearchSuggestions_def run_request_def Let_def)

lemma getSearchSuggestions_rejected:
  "table_error bk = Some err \<Longrightarrow> getSearchSuggestions bk q = Inr []"
  by (simp add: getSearchSuggestions_def run_request_def)

text \<open>
  C9, as the code has it. \<open>limit(10)\<close> bounds the rows, and each row can give its title
  and its \<open>titleEn\<close>: a returned list has at most 20 suggestions, no duplicates, and every
  suggestion contains the query case-insensitively. On a backend error the result is the
  empty list, and over rows of the table's shape the call always returns.
\<close>

theorem suggestions_bounded_distinct:
  "(table_error bk = Some err \<longrightarrow> getSearchSuggestions bk q = Inr []) \<and>
   (getSearchSuggestions bk q = Inr xs \<longrightarrow>
      length xs \<le> 20 \<and> distinct xs \<and>
      (\<forall>x \<in> set xs. str_includes (toLowerCase x) (toLowerCase q))) \<and>
   (table_error bk = None \<and> (\<forall>r \<in> set (table_rows bk). title_row r) \<longrightarrow>
      (\<exists>ys. getSearchSuggestions bk q = Inr ys))"
proof -
  let ?items = "take 10 (filter (\<lambda>r. clause_holds (OrFilter (suggest_or_filter q)) r) (table_rows bk))"
  have rejected: "table_error bk = Some err \<longrightarrow> getSearchSuggestions bk q = Inr []"
    by (simp add: getSearchSuggestions_rejected)
  have bounded: "length xs \<le> 20 \<and> distinct xs \<and>
      (\<forall>x \<in> set xs. str_includes (toLowerCase x) (toLowerCase q))"
    if r: "getSearchSuggestions bk q = Inr xs"
  proof (cases "table_error bk = None \<and> clause_ok (OrFilter (suggest_or_filter q))")
    case True
    with r have "collect_suggestions q ?items [] = Inr xs"
      by (simp add: getSearchSuggestions_answer del: clause_holds.simps clause_ok.simps)
    from collect_suggestions_bound[OF this] have
      "distinct xs \<and> length xs \<le> 2 * length ?items \<and>
       (\<forall>x \<in> set xs. str_includes (toLowerCase x) (toLowerCase q))"
      by simp
    moreover have "length ?items \<le> 10" by simp
    ultimately show ?thesis by linarith
  next
    case False
    with r have "xs = []"
      by (cases "table_error bk")
         (auto simp: getSearchSuggestions_rejected getSearchSuggestions_answer
               simp del: clause_holds.simps clause_ok.simps)
    then show ?thesis by simp
  qed
  have answered: "\<exists>ys. getSearchSuggestions bk q = Inr ys"
    if a: "table_error bk = None \<and> (\<forall>r \<in> set (table_rows bk). title_row r)"
  proof -
    from a have "list_all title_row ?items"
      by (auto simp: list_all_iff dest: in_set_takeD)
    from collect_suggestions_total[OF this] a show ?thesis
      by (auto simp: getSearchSuggestions_answer simp del: clause_holds.simps clause_ok.simps)
  qed
  from rejected bounded answered show ?thesis by blast
qed

text \<open>
  C9, as stated, fails: six rows whose title and \<open>titleEn\<close> both match give twelve
  suggestions.
\<close>

theorem suggestions_exceed_ten:
  "suggestion_count (getSearchSuggestions six_pairs ''a'') = Inr 12"
  by code_simp

theorem suggestions_bounded_distinct_witness:
  "table_error down = Some ''connection refused'' \<and> getSearchSuggestions down ''a'' = Inr [] \<and>
   table_error six_pairs = None \<and> list_all title_row (table_rows six_pairs) \<and>
   (\<exists>ys. getSearchSuggestions six_pairs ''a'' = Inr ys \<and> ys \<noteq> [] \<and> length ys \<le> 20 \<and> distinct ys \<and>
         (\<forall>x \<in> set ys. str_includes (toLowerCase x) (toLowerCase ''a'')))"
proof -
  have d: "table_error down = Some ''connection refused''" by (simp add: down_def)
  have e: "table_error six_pairs = None" by (simp add: six_pairs_def)
  have t: "\<forall>r \<in> set (table_rows six_pairs). title_row r" by code_simp
  have c: "suggestion_count (getSearchSuggestions six_pairs ''a'') \<noteq> Inr 0" by code_simp
  from suggestions_bounded_distinct[of six_pairs _ "''a''"] e t
  obtain ys where ys: "getSearchSuggestions six_pairs ''a'' = Inr ys" by blast
  with c have ne: "ys \<noteq> []" by (auto simp: suggestion_count_def)
  from suggestions_bounded_distinct[of six_pairs _ "''a''" ys] ys
  have "length ys \<le> 20 \<and> distinct ys \<and> (\<forall>x \<in> set ys. str_includes (toLowerCase x) (toLowerCase ''a''))"
    by blast
  moreover from suggestions_bounded_distinct[of down "''connection refused''" "''a''"] d
  have "getSearchSuggestions down ''a'' = Inr []" by blast
  moreover from t have "list_all title_row (table_rows six_pairs)"
    by (simp add: list_all_iff)
  ultimately show ?thesis using d e ys ne by blast
qed

section \<open>The availability toggle: transitions\<close>

lemma healthCheck_cases:
  "healthCheck bk =
     (case table_error bk of
        None \<Rightarrow> Inr \<lparr>status = ''ok'', database = ''supabase''\<rparr>
      | Some err \<Rightarrow> Inl (SupabaseApiError 500 ''Database connection failed''))"
  by (simp add: healthCheck_def run_request_def Let_def split: option.splits)

lemma checkApiStatus_off: "\<not> useApi s \<Longrightarrow> checkApiStatus bk s = \<lparr>useApi = False, apiStatus = Unavailable\<rparr>"
  by (cases s) (simp add: checkApiStatus_def)

lemma rerun_effects_off:
  "\<not> useApi s \<Longrightarrow> bks \<noteq> [] \<Longrightarrow> rerun_effects s bks = \<lparr>useApi = False, apiStatus = Unavailable\<rparr>"
proof (induction bks arbitrary: s)
  case Nil
  then show ?case by simp
next
  case (Cons bk bks)
  have step: "checkApiStatus bk s = \<lparr>useApi = False, apiStatus = Unavailable\<rparr>"
    using Cons.prems(1) by (rule checkApiStatus_off)
  show ?case
  proof (cases "bks = []")
    case True
    with step show ?thesis by (simp add: rerun_effects_def)
  next
    case False
    have "rerun_effects s (bk # bks) = rerun_effects (checkApiStatus bk s) bks"
      by (simp add: rerun_effects_def)
    also have "\<dots> = \<lparr>useApi = False, apiStatus = Unavailable\<rparr>"
      using Cons.IH[of "checkApiStatus bk s"] False step by simp
    finally show ?thesis .
  qed
qed

text \<open>
  C7. One run of the effect ends in \<open>available\<close> exactly when \<open>useApi\<close> is on and
  \<open>healthCheck\<close> succeeded; a rejected query makes \<open>healthCheck\<close> throw its transport
  error; a failing \<open>healthCheck\<close> ends in \<open>unavailable\<close> with \<open>useApi\<close> switched off, and
  so does the re-run that the change of \<open>useApi\<close> triggers; with \<open>useApi\<close> off, every
  further run of the effect, against whatever backend, stays \<open>unavailable\<close> with the flag
  off, so only a caller's \<open>setUseApi\<close> can lead back to \<open>available\<close>; and with the
  configuration flag off the state settles at \<open>unavailable\<close> whatever the backend is, the
  backend not being asked.
\<close>

theorem toggle_transitions:
  "(apiStatus (checkApiStatus bk s) = Available \<longleftrightarrow> useApi s \<and> \<not> isl (healthCheck bk)) \<and>
   (table_error bk = Some err \<longrightarrow>
      healthCheck bk = Inl (SupabaseApiError 500 ''Database connection failed'')) \<and>
   (useApi s \<and> isl (healthCheck bk) \<longrightarrow>
      checkApiStatus bk s = \<lparr>useApi = False, apiStatus = Unavailable\<rparr> \<and>
      effect_settled bk s = \<lparr>useApi = False, apiStatus = Unavailable\<rparr>) \<and>
   (\<not> useApi s \<and> bks \<noteq> [] \<longrightarrow>
      rerun_effects s bks = \<lparr>useApi = False, apiStatus = Unavailable\<rparr>) \<and>
   (env \<noteq> Some ''true'' \<longrightarrow>
      effect_settled bk (init_toggle env) = \<lparr>useApi = False, apiStatus = Unavailable\<rparr>)"
proof -
  have only_after_success:
    "apiStatus (checkApiStatus bk s) = Available \<longleftrightarrow> useApi s \<and> \<not> isl (healthCheck bk)"
    by (cases "healthCheck bk") (auto simp: checkApiStatus_def)
  have thrown: "table_error bk = Some err \<longrightarrow>
      healthCheck bk = Inl (SupabaseApiError 500 ''Database connection failed'')"
    by (simp add: healthCheck_cases)
  have failure: "checkApiStatus bk s = \<lparr>useApi = False, apiStatus = Unavailable\<rparr> \<and>
      effect_settled bk s = \<lparr>useApi = False, apiStatus = Unavailable\<rparr>"
    if a: "useApi s \<and> isl (healthCheck bk)"
  proof -
    from a have c: "checkApiStatus bk s = \<lparr>useApi = False, apiStatus = Unavailable\<rparr>"
      by (cases s; cases "healthCheck bk") (auto simp: checkApiStatus_def)
    with a show ?thesis
      by (simp add: effect_settled_def Let_def checkApiStatus_off)
  qed
  have latched: "\<not> useApi s \<and> bks \<noteq> [] \<longrightarrow>
      rerun_effects s bks = \<lparr>useApi = False, apiStatus = Unavailable\<rparr>"
    by (simp add: rerun_effects_off)
  have flag_off: "effect_settled bk (init_toggle env) = \<lparr>useApi = False, apiStatus = Unavailable\<rparr>"
    if "env \<noteq> Some ''true''"
  proof -
    from that have "\<not> useApi (init_toggle env)" by (simp add: init_toggle_def)
    then show ?thesis
      by (simp add: effect_settled_def Let_def checkApiStatus_off)
  qed
  from only_after_success thrown failure latched flag_off show ?thesis by blast
qed

theorem toggle_transitions_witness:
  "useApi (init_toggle (Some ''true'')) \<and> apiStatus (init_toggle (Some ''true'')) = Checking \<and>
   \<not> isl (healthCheck two_rows) \<and>
   apiStatus (checkApiStatus two_rows (init_toggle (Some ''true''))) = Available \<and>
   table_error down = Some ''connection refused'' \<and> isl (healthCheck down) \<and>
   effect_settled down (init_toggle (Some ''true'')) = \<lparr>useApi = False, apiStatus = Unavailable\<rparr> \<and>
   rerun_effects \<lparr>useApi = False, apiStatus = Unavailable\<rparr> healthy_then_down
     = \<lparr>useApi = False, apiStatus = Unavailable\<rparr> \<and>
   effect_settled two_rows (init_toggle (Some ''false'')) = \<lparr>useApi = False, apiStatus = Unavailable\<rparr>"
proof -
  let ?on = "init_toggle (Some ''true'')"
  let ?off = "\<lparr>useApi = False, apiStatus = Unavailable\<rparr>"
  have u: "useApi ?on" "apiStatus ?on = Checking" by (simp_all add: init_toggle_def)
  have h: "\<not> isl (healthCheck two_rows)" by code_simp
  have d: "table_error down = Some ''connection refused''" by (simp add: down_def)
  have ne: "healthy_then_down \<noteq> []" by (simp add: healthy_then_down_def)
  have e: "Some ''false'' \<noteq> Some ''true''" by simp
  from toggle_transitions[of two_rows ?on] u h
  have 1: "apiStatus (checkApiStatus two_rows ?on) = Available" by blast
  from toggle_transitions[of down ?on "''connection refused''"] d
  have 2: "isl (healthCheck down)" by simp
  from toggle_transitions[of down ?on] u 2
  have 3: "effect_settled down ?on = ?off" by blast
  from toggle_transitions[of _ ?off _ healthy_then_down] ne
  have 4: "rerun_effects ?off healthy_then_down = ?off" by simp
  from toggle_transitions[of two_rows _ _ _ "Some ''false''"] e
  have 5: "effect_settled two_rows (init_toggle (Some ''false'')) = ?off" by blast
  from u h 1 d 2 3 4 5 show ?thesis by blast
qed

end
